theory Spec2Isabelle
  imports Complex_Main
begin

section \<open>Binary floating point\<close>

text \<open>
  The solver computes in \<^verbatim>\<open>c_float\<close> (a C \<^verbatim>\<open>double\<close>) and declares its two constants as
  \<^verbatim>\<open>float\<close>. A finite floating-point number is modelled by the real number it denotes, and
  an arithmetic operation by the exact operation followed by rounding to the nearest
  number of the format, ties to the even significand. Infinities and NaN are outside the
  model: the entries of the matrices are finite.
\<close>

fun ilog2 :: "nat \<Rightarrow> nat" where
  "ilog2 n = (if n < 2 then 0 else ilog2 (n div 2) + 1)"

declare ilog2.simps [simp del]

definition clog2 :: "nat \<Rightarrow> nat" where
  "clog2 n = (if n \<le> 1 then 0 else ilog2 (n - 1) + 1)"

text \<open>The binary exponent of a non-zero real: \<open>2 ^ expo x \<le> \<bar>x\<bar> < 2 ^ (expo x + 1)\<close>.\<close>

definition expo :: "real \<Rightarrow> int" where
  "expo x = (if 1 \<le> \<bar>x\<bar> then int (ilog2 (nat \<lfloor>\<bar>x\<bar>\<rfloor>))
             else - int (clog2 (nat \<lceil>1 / \<bar>x\<bar>\<rceil>)))"

definition pow2 :: "int \<Rightarrow> real" where
  "pow2 k = (if 0 \<le> k then 2 ^ nat k else 1 / 2 ^ nat (- k))"

definition round_half_even :: "real \<Rightarrow> int" where
  "round_half_even y =
     (let f = \<lfloor>y\<rfloor>; d = y - of_int f
      in if d < 1 / 2 then f
         else if 1 / 2 < d then f + 1
         else if even f then f else f + 1)"

text \<open>
  The spacing of the numbers of a format with \<open>p\<close> significand bits and least normal
  exponent \<open>emin\<close> around \<open>x\<close> (below \<open>2 ^ emin\<close> the spacing is that of the subnormal
  numbers).
\<close>

definition quantum :: "nat \<Rightarrow> int \<Rightarrow> real \<Rightarrow> real" where
  "quantum p emin x = pow2 (max (expo x) emin - int p + 1)"

definition round_nearest :: "nat \<Rightarrow> int \<Rightarrow> real \<Rightarrow> real" where
  "round_nearest p emin x =
     (let q = quantum p emin x in of_int (round_half_even (x / q)) * q)"

definition representable :: "nat \<Rightarrow> int \<Rightarrow> int \<Rightarrow> real \<Rightarrow> bool" where
  "representable p emin emax x =
     (let y = x / quantum p emin x
      in (x = 0 \<or> expo x \<le> emax) \<and> of_int \<lfloor>y\<rfloor> = y)"

definition fl64 :: "real \<Rightarrow> real" where
  "fl64 = round_nearest 53 (- 1022)"

definition fl32 :: "real \<Rightarrow> real" where
  "fl32 = round_nearest 24 (- 126)"

definition is_double :: "real \<Rightarrow> bool" where
  "is_double = representable 53 (- 1022) 1023"

type_synonym c_float = real

definition c_add :: "c_float \<Rightarrow> c_float \<Rightarrow> c_float" where
  "c_add x y = fl64 (x + y)"

definition c_sub :: "c_float \<Rightarrow> c_float \<Rightarrow> c_float" where
  "c_sub x y = fl64 (x - y)"

text \<open>
  \<^verbatim>\<open>constexpr float kEpsilon = 1e-9;  constexpr float kUpperLimit = 1e9;\<close>
  The literal is a \<^verbatim>\<open>double\<close>, converted to \<^verbatim>\<open>float\<close>; where the constant is used it is
  widened to \<^verbatim>\<open>double\<close> again, which changes nothing.
\<close>

definition kEpsilon :: c_float where
  "kEpsilon = fl32 (fl64 (1 / 10 ^ 9))"

definition kUpperLimit :: c_float where
  "kUpperLimit = fl32 (fl64 (10 ^ 9))"

section \<open>Faults\<close>

text \<open>
  Executions that the C++ does not define, or that stop the process, are values of the
  model: a failed Eigen assertion (an index or a block out of range), a write past the
  end of a local array, a null or dangling workspace pointer that is dereferenced, and
  \<^verbatim>\<open>c_free\<close> of a pointer read from memory that was never written.
\<close>

datatype fault = EigenAssert | BufferOverflow | NullPointer | DanglingPointer | InvalidFree

definition bnd :: "fault + 'a \<Rightarrow> ('a \<Rightarrow> fault + 'b) \<Rightarrow> fault + 'b" where
  "bnd r f = (case r of Inl e \<Rightarrow> Inl e | Inr v \<Rightarrow> f v)"

text \<open>\<^verbatim>\<open>for (int i = i0; i < n; ++i) body\<close>, stopping at the first fault.\<close>

function for_loop :: "nat \<Rightarrow> nat \<Rightarrow> (nat \<Rightarrow> 'a \<Rightarrow> fault + 'a) \<Rightarrow> 'a \<Rightarrow> fault + 'a" where
  "for_loop i n body s =
     (if i < n then (case body i s of Inl e \<Rightarrow> Inl e | Inr s' \<Rightarrow> for_loop (i + 1) n body s')
      else Inr s)"
  by pat_completeness auto
termination
  by (relation "measure (\<lambda>(i, n, body, s). n - i)") auto

declare for_loop.simps [simp del]

section \<open>Dense matrices and local arrays\<close>

text \<open>\<^verbatim>\<open>Eigen::MatrixXd\<close>: the two dimensions and the coefficients.\<close>

record matrix =
  rows :: nat
  cols :: nat
  coeffs :: "nat \<Rightarrow> nat \<Rightarrow> c_float"

definition msize :: "matrix \<Rightarrow> nat" where
  "msize M = rows M * cols M"

text \<open>\<^verbatim>\<open>M(i, j)\<close>; Eigen asserts that the index is in range.\<close>

definition coeff :: "matrix \<Rightarrow> nat \<Rightarrow> nat \<Rightarrow> fault + c_float" where
  "coeff M i j = (if i < rows M \<and> j < cols M then Inr (coeffs M i j) else Inl EigenAssert)"

text \<open>\<^verbatim>\<open>M(i)\<close>: the \<open>i\<close>-th coefficient in storage order, which is column by column.\<close>

definition coeff_index :: "matrix \<Rightarrow> nat \<Rightarrow> fault + c_float" where
  "coeff_index M i =
     (if i < msize M then Inr (coeffs M (i mod rows M) (i div rows M)) else Inl EigenAssert)"

definition Zero :: "nat \<Rightarrow> nat \<Rightarrow> matrix" where
  "Zero r c = \<lparr>rows = r, cols = c, coeffs = (\<lambda>i j. 0)\<rparr>"

text \<open>\<^verbatim>\<open>M(i, j) = v\<close>.\<close>

definition set_coeff :: "matrix \<Rightarrow> nat \<Rightarrow> nat \<Rightarrow> c_float \<Rightarrow> fault + matrix" where
  "set_coeff M i j v =
     (if i < rows M \<and> j < cols M
      then Inr (M\<lparr>coeffs := (\<lambda>i' j'. if i' = i \<and> j' = j then v else coeffs M i' j')\<rparr>)
      else Inl EigenAssert)"

text \<open>
  \<^verbatim>\<open>MatrixXd A(r, c); A << X, Y;\<close> Eigen's comma initializer fills \<open>A\<close> block row by block
  row: \<open>X\<close> from row 0, \<open>Y\<close> below it. The two blocks have to tile \<open>A\<close> exactly; Eigen
  asserts it.
\<close>

definition comma_initializer :: "nat \<Rightarrow> nat \<Rightarrow> matrix \<Rightarrow> matrix \<Rightarrow> fault + matrix" where
  "comma_initializer r c X Y =
     (if cols X = c \<and> cols Y = c \<and> rows X + rows Y = r
      then Inr \<lparr>rows = r, cols = c,
                coeffs = (\<lambda>i j. if i < rows X then coeffs X i j else coeffs Y (i - rows X) j)\<rparr>
      else Inl EigenAssert)"

text \<open>
  A local array \<^verbatim>\<open>c_float a[n]\<close>: \<open>n\<close> cells, none of them written yet. A write past the
  end is a fault.
\<close>

type_synonym 'a array = "'a option list"

definition new_array :: "nat \<Rightarrow> 'a array" where
  "new_array n = replicate n None"

definition store :: "'a array \<Rightarrow> nat \<Rightarrow> 'a \<Rightarrow> fault + 'a array" where
  "store a i v = (if i < length a then Inr (a[i := Some v]) else Inl BufferOverflow)"

section \<open>The OSQP interface\<close>

text \<open>
  OSQP is a library outside the repository. Its data structures are modelled as far as
  the solver fills or reads them. What \<^verbatim>\<open>osqp_setup\<close> makes of a problem and what
  \<^verbatim>\<open>osqp_solve\<close> computes are parameters of the model (\<open>setup_result\<close>, \<open>solve_result\<close>
  below), as are the sparse conversion \<^verbatim>\<open>DenseToCSCMatrix\<close> and the spline's
  \<^verbatim>\<open>SetSplineSegs\<close> and \<^verbatim>\<open>spline_order\<close>, whose sources are not part of the file.
\<close>

record csc =
  csc_m :: nat
  csc_n :: nat
  nzmax :: nat
  csc_x :: "c_float list"
  csc_i :: "int list"
  csc_p :: "int list"

definition csc_matrix :: "nat \<Rightarrow> nat \<Rightarrow> nat \<Rightarrow> c_float list \<Rightarrow> int list \<Rightarrow> int list \<Rightarrow> csc" where
  "csc_matrix m n nnz x i p =
     \<lparr>csc_m = m, csc_n = n, nzmax = nnz, csc_x = x, csc_i = i, csc_p = p\<rparr>"

record osqp_data =
  data_n :: nat
  data_m :: nat
  data_P :: csc
  data_q :: "c_float array"
  data_A :: csc
  data_l :: "c_float array"
  data_u :: "c_float array"

record osqp_settings =
  alpha :: c_float
  eps_abs :: c_float
  eps_rel :: c_float
  max_iter :: nat
  polish :: bool
  verbose :: bool
  warm_start :: bool

datatype osqp_status =
  OSQP_SOLVED | OSQP_SOLVED_INACCURATE | OSQP_MAX_ITER_REACHED
  | OSQP_PRIMAL_INFEASIBLE | OSQP_DUAL_INFEASIBLE | OSQP_UNSOLVED

text \<open>Of a workspace, the solver reads \<^verbatim>\<open>work->solution->x\<close>; the status is in
  \<^verbatim>\<open>work->info->status_val\<close>.\<close>

record workspace =
  solution_x :: "nat \<Rightarrow> c_float"
  status_val :: osqp_status

record 'sp externals =
  DenseToCSCMatrix :: "matrix \<Rightarrow> c_float list \<times> int list \<times> int list"
  osqp_set_default_settings :: osqp_settings
  setup_result :: "osqp_data \<Rightarrow> osqp_settings option \<Rightarrow> workspace option"
  solve_result :: "workspace \<Rightarrow> workspace"
  SetSplineSegs :: "'sp \<Rightarrow> matrix \<Rightarrow> nat \<Rightarrow> bool \<times> 'sp"
  spline_order :: "'sp \<Rightarrow> nat"

text \<open>
  The workspaces that OSQP has allocated and not yet released, by address, and the calls
  made to OSQP so far.
\<close>

datatype osqp_call = CallSetup "nat option" | CallSolve nat | CallCleanup "nat option"

record world =
  workspaces :: "nat \<rightharpoonup> workspace"
  next_addr :: nat
  calls :: "osqp_call list"

text \<open>\<^verbatim>\<open>osqp_setup\<close> returns a new workspace, or null when it rejects the problem.\<close>

definition osqp_setup ::
  "'sp externals \<Rightarrow> osqp_data \<Rightarrow> osqp_settings option \<Rightarrow> world \<Rightarrow> nat option \<times> world" where
  "osqp_setup ext d st w =
     (case setup_result ext d st of
        None \<Rightarrow> (None, w\<lparr>calls := calls w @ [CallSetup None]\<rparr>)
      | Some ws \<Rightarrow>
          (Some (next_addr w),
           w\<lparr>workspaces := (workspaces w)(next_addr w \<mapsto> ws),
             next_addr := next_addr w + 1,
             calls := calls w @ [CallSetup (Some (next_addr w))]\<rparr>))"

definition osqp_solve :: "'sp externals \<Rightarrow> nat option \<Rightarrow> world \<Rightarrow> fault + world" where
  "osqp_solve ext work w =
     (case work of
        None \<Rightarrow> Inl NullPointer
      | Some a \<Rightarrow>
          (case workspaces w a of
             None \<Rightarrow> Inl DanglingPointer
           | Some ws \<Rightarrow>
               Inr (w\<lparr>workspaces := (workspaces w)(a \<mapsto> solve_result ext ws),
                      calls := calls w @ [CallSolve a]\<rparr>)))"

text \<open>\<^verbatim>\<open>work->solution->x[i]\<close>\<close>

definition solution_at :: "nat option \<Rightarrow> world \<Rightarrow> nat \<Rightarrow> fault + c_float" where
  "solution_at work w i =
     (case work of
        None \<Rightarrow> Inl NullPointer
      | Some a \<Rightarrow>
          (case workspaces w a of
             None \<Rightarrow> Inl DanglingPointer
           | Some ws \<Rightarrow> Inr (solution_x ws i)))"

text \<open>\<^verbatim>\<open>osqp_cleanup\<close> releases a workspace; on a null pointer it does nothing.\<close>

definition osqp_cleanup :: "nat option \<Rightarrow> world \<Rightarrow> fault + world" where
  "osqp_cleanup work w =
     (case work of
        None \<Rightarrow> Inr (w\<lparr>calls := calls w @ [CallCleanup None]\<rparr>)
      | Some a \<Rightarrow>
          (case workspaces w a of
             None \<Rightarrow> Inl DanglingPointer
           | Some ws \<Rightarrow>
               Inr (w\<lparr>workspaces := (workspaces w)(a := None),
                      calls := calls w @ [CallCleanup (Some a)]\<rparr>)))"

section \<open>The solver object\<close>

text \<open>
  A pointer member that the class obtains from \<^verbatim>\<open>c_malloc\<close>: null, a block that was never
  written, a block with its content, or a block that was freed.
\<close>

datatype 'a ptr = Null | Uninit | Val 'a | Freed

text \<open>
  The members of \<^verbatim>\<open>Spline1dSolver\<close> that \<^verbatim>\<open>Solve\<close> reads or writes (the spline, the kernel's
  matrix and offset, the two constraint blocks, the two retained counts), and the three
  pointers of \<^verbatim>\<open>OsqpSpline1dSolver\<close>.
\<close>

record 'sp solver =
  spline_' :: 'sp
  kernel_matrix :: matrix
  offset :: matrix
  inequality_constraint_matrix :: matrix
  inequality_constraint_boundary :: matrix
  equality_constraint_matrix :: matrix
  equality_constraint_boundary :: matrix
  last_num_param_' :: int
  last_num_constraint_' :: int
  settings_' :: "osqp_settings ptr"
  data_' :: "osqp_data ptr"
  work_' :: "nat option"

text \<open>
  The constructor, after the base class has built \<open>base\<close>. The header that declares
  \<^verbatim>\<open>work_\<close> is not part of the file: its initial value is the parameter \<open>work0\<close>.
\<close>

definition OsqpSpline1dSolver :: "'sp externals \<Rightarrow> 'sp solver \<Rightarrow> nat option \<Rightarrow> 'sp solver" where
  "OsqpSpline1dSolver ext base work0 =
     base\<lparr>settings_' :=
            Val ((osqp_set_default_settings ext)
                   \<lparr>alpha := 1, eps_abs := fl64 (1 / 10 ^ 3), eps_rel := fl64 (1 / 10 ^ 3),
                    max_iter := 5000, verbose := False, warm_start := True\<rparr>),
          data_' := Uninit,
          work_' := work0\<rparr>"

definition CleanUp :: "'sp solver \<times> world \<Rightarrow> fault + ('sp solver \<times> world)" where
  "CleanUp sw =
     (case sw of (s, w) \<Rightarrow>
        bnd (osqp_cleanup (work_' s) w) (\<lambda>w1.
        bnd (case data_' s of
               Null \<Rightarrow> Inr s
             | Uninit \<Rightarrow> Inl InvalidFree
             | Val d \<Rightarrow> Inr (s\<lparr>data_' := Freed\<rparr>)
             | Freed \<Rightarrow> Inl DanglingPointer) (\<lambda>s1.
        bnd (case settings_' s1 of
               Null \<Rightarrow> Inr s1
             | Uninit \<Rightarrow> Inr (s1\<lparr>settings_' := Freed\<rparr>)
             | Val v \<Rightarrow> Inr (s1\<lparr>settings_' := Freed\<rparr>)
             | Freed \<Rightarrow> Inl InvalidFree) (\<lambda>s2.
        Inr (s2, w1)))))"

text \<open>The destructor.\<close>

definition destroy :: "'sp solver \<times> world \<Rightarrow> fault + ('sp solver \<times> world)" where
  "destroy sw = CleanUp sw"

definition ResetOsqp :: "'sp solver \<Rightarrow> 'sp solver" where
  "ResetOsqp s = s\<lparr>settings_' := Uninit, data_' := Uninit\<rparr>"

subsection \<open>Solve\<close>

text \<open>\<^verbatim>\<open>A << inequality_constraint_matrix, equality_constraint_matrix\<close>\<close>

definition constraint_matrix_A :: "'sp solver \<Rightarrow> fault + matrix" where
  "constraint_matrix_A s =
     comma_initializer
       (rows (inequality_constraint_matrix s) + rows (equality_constraint_matrix s))
       (cols (inequality_constraint_matrix s))
       (inequality_constraint_matrix s) (equality_constraint_matrix s)"

text \<open>\<^verbatim>\<open>c_float q[q_eigen.rows()]; for (i < q_eigen.size()) q[i] = q_eigen(i);\<close>\<close>

definition copy_offset :: "matrix \<Rightarrow> fault + c_float array" where
  "copy_offset q_eigen =
     for_loop 0 (msize q_eigen)
       (\<lambda>i q. bnd (coeff_index q_eigen i) (\<lambda>v. store q i v))
       (new_array (rows q_eigen))"

text \<open>The body of the loop that fills \<open>l\<close> and \<open>u\<close>, for the boundaries \<open>ib\<close> and \<open>eb\<close>.\<close>

definition bounds_body ::
  "matrix \<Rightarrow> matrix \<Rightarrow> nat \<Rightarrow> c_float array \<times> c_float array
     \<Rightarrow> fault + (c_float array \<times> c_float array)" where
  "bounds_body ib eb i lu =
     (case lu of (l, u) \<Rightarrow>
        if i < rows ib then
          bnd (coeff ib i 0) (\<lambda>b.
          bnd (store l i b) (\<lambda>l'.
          bnd (store u i kUpperLimit) (\<lambda>u'.
          Inr (l', u'))))
        else
          (let idx = i - rows ib in
           bnd (coeff eb idx 0) (\<lambda>t.
           bnd (store l i (c_sub t kEpsilon)) (\<lambda>l'.
           bnd (coeff eb idx 0) (\<lambda>t'.
           bnd (store u i (c_add t' kEpsilon)) (\<lambda>u'.
           Inr (l', u')))))))"

definition set_bounds :: "matrix \<Rightarrow> matrix \<Rightarrow> fault + (c_float array \<times> c_float array)" where
  "set_bounds ib eb =
     (let constraint_num = rows ib + rows eb
      in for_loop 0 constraint_num (bounds_body ib eb)
           (new_array constraint_num, new_array constraint_num))"

text \<open>
  The first part of \<^verbatim>\<open>Solve\<close>, up to the problem handed to OSQP: \<open>Inr None\<close> is one of
  the two \<^verbatim>\<open>return false\<close>.
\<close>

definition build_problem :: "'sp externals \<Rightarrow> 'sp solver \<Rightarrow> fault + osqp_data option" where
  "build_problem ext s =
     (let P = kernel_matrix s in
      if rows P = 0 then Inr None
      else
        (case DenseToCSCMatrix ext P of (P_data, P_indices, P_indptr) \<Rightarrow>
         let P_nnz = length P_data in
         bnd (constraint_matrix_A s) (\<lambda>A.
         if rows A = 0 then Inr None
         else
           (case DenseToCSCMatrix ext A of (A_data, A_indices, A_indptr) \<Rightarrow>
            let A_nnz = length A_data in
            bnd (copy_offset (offset s)) (\<lambda>q.
            let constraint_num =
                  rows (inequality_constraint_boundary s) + rows (equality_constraint_boundary s)
            in
            bnd (set_bounds (inequality_constraint_boundary s) (equality_constraint_boundary s))
              (\<lambda>(l, u).
            Inr (Some
              \<lparr>data_n = rows P, data_m = constraint_num,
               data_P = csc_matrix (rows P) (rows P) P_nnz P_data P_indices P_indptr,
               data_q = q,
               data_A = csc_matrix constraint_num (rows P) A_nnz A_data A_indices A_indptr,
               data_l = l, data_u = u\<rparr>)))))))"

text \<open>\<^verbatim>\<open>solved_params = MatrixXd::Zero(n, 1); for (i < n) solved_params(i, 0) = x[i];\<close>\<close>

definition solved_params :: "nat \<Rightarrow> nat option \<Rightarrow> world \<Rightarrow> fault + matrix" where
  "solved_params n work w =
     for_loop 0 n (\<lambda>i M. bnd (solution_at work w i) (\<lambda>x. set_coeff M i 0 x)) (Zero n 1)"

definition Solve :: "'sp externals \<Rightarrow> 'sp solver \<times> world \<Rightarrow> fault + (bool \<times> 'sp solver \<times> world)" where
  "Solve ext sw =
     (case sw of (s, w) \<Rightarrow>
        bnd (build_problem ext s) (\<lambda>problem.
        case problem of
          None \<Rightarrow> Inr (False, s, w)
        | Some d \<Rightarrow>
            bnd (case data_' s of
                   Null \<Rightarrow> Inl NullPointer
                 | Freed \<Rightarrow> Inl DanglingPointer
                 | _ \<Rightarrow> Inr (s\<lparr>data_' := Val d\<rparr>)) (\<lambda>s1.
            bnd (case settings_' s1 of
                   Null \<Rightarrow> Inl NullPointer
                 | Freed \<Rightarrow> Inl DanglingPointer
                 | Uninit \<Rightarrow> Inr None
                 | Val v \<Rightarrow> Inr (Some v)) (\<lambda>st.
            case osqp_setup ext d st w of (work, w1) \<Rightarrow>
            let s2 = s1\<lparr>work_' := work\<rparr> in
            bnd (osqp_solve ext (work_' s2) w1) (\<lambda>w2.
            bnd (solved_params (data_n d) (work_' s2) w2) (\<lambda>params.
            let s3 = s2\<lparr>last_num_param_' := int (data_n d),
                        last_num_constraint_' := int (data_m d)\<rparr>
            in case SetSplineSegs ext (spline_' s3) params (spline_order ext (spline_' s3)) of
                 (ok, spline') \<Rightarrow> Inr (ok, s3\<lparr>spline_' := spline'\<rparr>, w2)))))))"

subsection \<open>The life of a solver object\<close>

text \<open>
  What a caller does with one solver between its construction and its destruction: calls
  of \<^verbatim>\<open>Solve\<close> (whose result it may ignore) and of \<^verbatim>\<open>ResetOsqp\<close>. A fault ends the run.
\<close>

datatype operation = OpSolve | OpResetOsqp

fun run ::
  "'sp externals \<Rightarrow> operation list \<Rightarrow> 'sp solver \<times> world \<Rightarrow> fault + ('sp solver \<times> world)" where
  "run ext [] sw = Inr sw"
| "run ext (OpSolve # ops) sw = bnd (Solve ext sw) (\<lambda>(ok, s, w). run ext ops (s, w))"
| "run ext (OpResetOsqp # ops) sw = (case sw of (s, w) \<Rightarrow> run ext ops (ResetOsqp s, w))"

definition lifetime ::
  "'sp externals \<Rightarrow> 'sp solver \<Rightarrow> nat option \<Rightarrow> operation list \<Rightarrow> world
     \<Rightarrow> fault + ('sp solver \<times> world)" where
  "lifetime ext base work0 ops w =
     bnd (run ext ops (OsqpSpline1dSolver ext base work0, w)) destroy"

section \<open>Notions used in the statements\<close>

text \<open>A pointer to a block that may be written, and the content of a block that has one.\<close>

definition usable :: "'a ptr \<Rightarrow> bool" where
  "usable p = (case p of Uninit \<Rightarrow> True | Val v \<Rightarrow> True | _ \<Rightarrow> False)"

definition pointee :: "'a ptr \<Rightarrow> 'a option" where
  "pointee p = (case p of Val v \<Rightarrow> Some v | _ \<Rightarrow> None)"

text \<open>\<^verbatim>\<open>l[i] <= u[i]\<close> in a problem handed to OSQP.\<close>

definition bounds_ordered :: "osqp_data \<Rightarrow> nat \<Rightarrow> bool" where
  "bounds_ordered d i =
     (case (data_l d ! i, data_u d ! i) of (Some lo, Some hi) \<Rightarrow> lo \<le> hi | _ \<Rightarrow> False)"

section \<open>An example problem\<close>

text \<open>
  The scenario of the specification: cost matrix \<open>[[2, 0], [0, 2]]\<close>, offset \<open>[0, 0]\<close>, one
  inequality \<open>x0 \<ge> b\<close> and one equality \<open>x1 = t\<close>; and stand-ins for the collaborators.
\<close>

definition mat :: "nat \<Rightarrow> nat \<Rightarrow> c_float list list \<Rightarrow> matrix" where
  "mat r c xs = \<lparr>rows = r, cols = c, coeffs = (\<lambda>i j. xs ! i ! j)\<rparr>"

definition column_entries :: "matrix \<Rightarrow> nat \<Rightarrow> (nat \<times> c_float) list" where
  "column_entries M j = filter (\<lambda>e. snd e \<noteq> 0) (map (\<lambda>i. (i, coeffs M i j)) [0..<rows M])"

text \<open>
  Modelled from the spec: \<^verbatim>\<open>DenseToCSCMatrix\<close> (\<^verbatim>\<open>matrix_operations.h\<close> is not part of the file),
  after the specification's Dense-to-Sparse Converter: columns left to right, rows top to
  bottom, the values that are not zero, and the running count in the column pointers. It
  stands in for the conversion in the examples only.
\<close>

definition toCSC :: "matrix \<Rightarrow> c_float list \<times> int list \<times> int list" where
  "toCSC M =
     (concat (map (\<lambda>j. map snd (column_entries M j)) [0..<cols M]),
      concat (map (\<lambda>j. map (\<lambda>e. int (fst e)) (column_entries M j)) [0..<cols M]),
      map (\<lambda>j. int (length (concat (map (column_entries M) [0..<j])))) [0..<cols M + 1])"

definition example_settings :: osqp_settings where
  "example_settings =
     \<lparr>alpha = 16 / 10, eps_abs = 1 / 10 ^ 3, eps_rel = 1 / 10 ^ 3, max_iter = 4000,
      polish = False, verbose = True, warm_start = True\<rparr>"

text \<open>
  A solver that accepts every problem and ends with status \<open>st\<close> and solution \<open>x\<close>, and a
  spline that keeps the column it is given.
\<close>

definition example_externals :: "osqp_status \<Rightarrow> (nat \<Rightarrow> c_float) \<Rightarrow> (c_float list) externals" where
  "example_externals st x =
     \<lparr>DenseToCSCMatrix = toCSC,
      osqp_set_default_settings = example_settings,
      setup_result = (\<lambda>d s. Some \<lparr>solution_x = (\<lambda>i. 0), status_val = OSQP_UNSOLVED\<rparr>),
      solve_result = (\<lambda>ws. \<lparr>solution_x = x, status_val = st\<rparr>),
      SetSplineSegs = (\<lambda>sp M order. (cols M = 1, map (\<lambda>i. coeffs M i 0) [0..<rows M])),
      spline_order = (\<lambda>sp. 5)\<rparr>"

definition example_base :: "c_float \<Rightarrow> c_float \<Rightarrow> (c_float list) solver" where
  "example_base b t =
     \<lparr>spline_' = [], kernel_matrix = mat 2 2 [[2, 0], [0, 2]], offset = mat 2 1 [[0], [0]],
      inequality_constraint_matrix = mat 1 2 [[1, 0]],
      inequality_constraint_boundary = mat 1 1 [[b]],
      equality_constraint_matrix = mat 1 2 [[0, 1]],
      equality_constraint_boundary = mat 1 1 [[t]],
      last_num_param_' = 0, last_num_constraint_' = 0,
      settings_' = Null, data_' = Null, work_' = None\<rparr>"

definition example_solver :: "c_float \<Rightarrow> c_float \<Rightarrow> (c_float list) solver" where
  "example_solver b t =
     OsqpSpline1dSolver (example_externals OSQP_UNSOLVED (\<lambda>i. 0)) (example_base b t) None"

text \<open>The same solver before any constraint was added, and with an empty kernel.\<close>

definition unconstrained_solver :: "(c_float list) solver" where
  "unconstrained_solver =
     (example_solver 1 3)
       \<lparr>inequality_constraint_matrix := mat 0 0 [], inequality_constraint_boundary := mat 0 0 [],
        equality_constraint_matrix := mat 0 0 [], equality_constraint_boundary := mat 0 0 []\<rparr>"

definition empty_solver :: "(c_float list) solver" where
  "empty_solver = (example_solver 1 3)\<lparr>kernel_matrix := mat 0 0 [], offset := mat 0 0 []\<rparr>"

text \<open>
  Two inputs whose blocks do not fit: an inequality boundary with one row more than the
  inequality matrix; and, with no constraint row at all, an equality matrix of two columns
  beside an inequality matrix of none.
\<close>

definition long_boundary_solver :: "(c_float list) solver" where
  "long_boundary_solver =
     (example_solver 1 3)\<lparr>inequality_constraint_boundary := mat 2 1 [[1], [4]]\<rparr>"


definition example_data :: "c_float \<Rightarrow> c_float \<Rightarrow> osqp_data" where
  "example_data b t =
     \<lparr>data_n = 2, data_m = 2,
      data_P = csc_matrix 2 2 2 [2, 2] [0, 1] [0, 1, 2],
      data_q = [Some 0, Some 0],
      data_A = csc_matrix 2 2 2 [1, 1] [0, 1] [0, 1, 2],
      data_l = [Some b, Some (c_sub t kEpsilon)],
      data_u = [Some kUpperLimit, Some (c_add t kEpsilon)]\<rparr>"

definition empty_world :: world where
  "empty_world = \<lparr>workspaces = Map.empty, next_addr = 0, calls = []\<rparr>"

section \<open>Properties of rounding\<close>

lemma pow2_powi: "pow2 k = 2 powi k"
  by (simp add: pow2_def power_int_def inverse_eq_divide power_one_over)

lemma pow2_pos [simp]: "0 < pow2 k"
  by (simp add: pow2_powi)

lemma pow2_add: "pow2 (a + b) = pow2 a * pow2 b"
  by (simp add: pow2_powi power_int_add)

lemma pow2_mono: "a \<le> b \<Longrightarrow> pow2 a \<le> pow2 b"
  by (simp add: pow2_powi power_int_increasing)

lemma pow2_strict_mono: "a < b \<Longrightarrow> pow2 a < pow2 b"
  by (simp add: pow2_powi power_int_strict_increasing)

lemma pow2_nat: "0 \<le> k \<Longrightarrow> pow2 k = of_int (2 ^ nat k)"
  by (simp add: pow2_def)

lemma pow2_diff_int: "a \<le> b \<Longrightarrow> pow2 b = of_int (2 ^ nat (b - a)) * pow2 a"
proof -
  assume "a \<le> b"
  then have "pow2 b = pow2 ((b - a) + a)" by simp
  also have "\<dots> = pow2 (b - a) * pow2 a" by (rule pow2_add)
  also have "pow2 (b - a) = of_int (2 ^ nat (b - a))" using \<open>a \<le> b\<close> by (simp add: pow2_nat)
  finally show ?thesis .
qed

lemma ilog2_bounds: "0 < n \<Longrightarrow> 2 ^ ilog2 n \<le> n \<and> n < 2 * 2 ^ ilog2 n"
proof (induction n rule: ilog2.induct)
  case (1 n)
  show ?case
  proof (cases "n < 2")
    case True
    with 1 have "n = 1" by simp
    then show ?thesis by (simp add: ilog2.simps)
  next
    case False
    then have "0 < n div 2" by simp
    with 1 False have IH: "2 ^ ilog2 (n div 2) \<le> n div 2" "n div 2 < 2 * 2 ^ ilog2 (n div 2)"
      by simp_all
    have e: "ilog2 n = ilog2 (n div 2) + 1" using False by (subst ilog2.simps) simp
    from IH show ?thesis unfolding e by (simp; linarith)
  qed
qed

lemma clog2_bounds:
  assumes "2 \<le> n"
  shows "n \<le> 2 ^ clog2 n" "2 ^ clog2 n + 2 \<le> 2 * n"
proof -
  have c: "clog2 n = ilog2 (n - 1) + 1" using assms by (simp add: clog2_def)
  have "0 < n - 1" using assms by simp
  from ilog2_bounds[OF this] assms show "n \<le> 2 ^ clog2 n" "2 ^ clog2 n + 2 \<le> 2 * n"
    unfolding c by (simp_all; linarith)+
qed

lemma expo_bounds:
  assumes "x \<noteq> 0"
  shows "pow2 (expo x) \<le> \<bar>x\<bar>" "\<bar>x\<bar> < pow2 (expo x + 1)"
proof -
  define a where "a = \<bar>x\<bar>"
  have a: "0 < a" using assms by (simp add: a_def)
  have "pow2 (expo x) \<le> a \<and> a < pow2 (expo x + 1)"
  proof (cases "1 \<le> a")
    case True
    define n where "n = nat \<lfloor>a\<rfloor>"
    have n: "0 < n" using True by (simp add: n_def)
    have e: "expo x = int (ilog2 n)" using True by (simp add: expo_def a_def n_def)
    have rn: "real n = of_int \<lfloor>a\<rfloor>" using True by (simp add: n_def)
    have na: "real n \<le> a" "a < real n + 1"
      unfolding rn by linarith+
    from ilog2_bounds[OF n] have b: "2 ^ ilog2 n \<le> n" "n + 1 \<le> 2 * 2 ^ ilog2 n" by simp_all
    have b1: "(2::real) ^ ilog2 n \<le> real n"
      using of_nat_mono[OF b(1), where 'a = real] by simp
    have b2: "real n + 1 \<le> 2 * 2 ^ ilog2 n"
      using of_nat_mono[OF b(2), where 'a = real] by simp
    have lo: "(2::real) ^ ilog2 n \<le> a" using b1 na(1) by linarith
    have hi: "a < 2 * 2 ^ ilog2 n" using b2 na(2) by linarith
    have p1: "pow2 (int (ilog2 n)) = 2 ^ ilog2 n" by (simp add: pow2_def)
    have p2: "pow2 (int (ilog2 n) + 1) = 2 * 2 ^ ilog2 n" by (simp add: pow2_def nat_add_distrib)
    show ?thesis unfolding e p1 p2 using lo hi by (rule conjI)
  next
    case False
    define y where "y = 1 / a"
    define n where "n = nat \<lceil>y\<rceil>"
    have y: "1 < y" using False a by (simp add: y_def)
    then have n: "2 \<le> n" unfolding n_def by linarith
    have e: "expo x = - int (clog2 n)" using False by (simp add: expo_def a_def n_def y_def)
    have rn: "real n = of_int \<lceil>y\<rceil>" using y by (simp add: n_def)
    have ny: "y \<le> real n" "real n < y + 1"
      unfolding rn by linarith+
    from clog2_bounds[OF n] have b: "n \<le> 2 ^ clog2 n" "2 ^ clog2 n + 2 \<le> 2 * n" by simp_all
    have b1: "real n \<le> 2 ^ clog2 n"
      using of_nat_mono[OF b(1), where 'a = real] by simp
    have b2: "(2::real) ^ clog2 n + 2 \<le> 2 * real n"
      using of_nat_mono[OF b(2), where 'a = real] by simp
    have c0: "0 < clog2 n" using n by (simp add: clog2_def)
    have lo: "1 / 2 ^ clog2 n \<le> a"
    proof -
      have "y \<le> 2 ^ clog2 n" using ny(1) b1 by linarith
      then have "1 \<le> a * 2 ^ clog2 n" using a by (simp add: y_def field_simps)
      then show ?thesis by (simp add: field_simps)
    qed
    have hi: "a < pow2 (1 - int (clog2 n))"
    proof -
      have "(2::real) ^ clog2 n < 2 * y" using ny(2) b2 by linarith
      then have "a * 2 ^ clog2 n < 2" using a by (simp add: y_def field_simps)
      then have "a < 2 / 2 ^ clog2 n" by (simp add: pos_less_divide_eq)
      moreover have "pow2 (1 - int (clog2 n)) = 2 / 2 ^ clog2 n"
      proof -
        have "pow2 (1 - int (clog2 n)) = pow2 1 * pow2 (- int (clog2 n))"
          using pow2_add[of 1 "- int (clog2 n)"] by simp
        then show ?thesis using c0 by (simp add: pow2_def)
      qed
      ultimately show ?thesis by simp
    qed
    have p1: "pow2 (- int (clog2 n)) = 1 / 2 ^ clog2 n" using c0 by (simp add: pow2_def)
    have p2: "- int (clog2 n) + 1 = 1 - int (clog2 n)" by simp
    show ?thesis unfolding e p1 p2 using lo hi by (rule conjI)
  qed
  then show "pow2 (expo x) \<le> \<bar>x\<bar>" "\<bar>x\<bar> < pow2 (expo x + 1)"
    by (simp_all add: a_def)
qed

lemma expo_less:
  assumes "\<bar>t\<bar> < pow2 e" "t \<noteq> 0"
  shows "expo t < e"
proof (rule ccontr)
  assume "\<not> expo t < e"
  then have "pow2 e \<le> pow2 (expo t)" by (simp add: pow2_mono)
  with expo_bounds(1)[OF assms(2)] assms(1) show False by linarith
qed

lemma below_expo:
  assumes "expo t < e" "t \<noteq> 0"
  shows "\<bar>t\<bar> < pow2 e"
proof -
  have "pow2 (expo t + 1) \<le> pow2 e" using assms(1) by (simp add: pow2_mono)
  with expo_bounds(2)[OF assms(2)] show ?thesis by linarith
qed

lemma round_half_even_le:
  assumes "y \<le> of_int K"
  shows "round_half_even y \<le> K"
proof -
  have f: "\<lfloor>y\<rfloor> \<le> K" using assms by (simp add: floor_le_iff)
  show ?thesis
  proof (cases "\<lfloor>y\<rfloor> = K")
    case True
    then have "y = of_int K" using assms by linarith
    then show ?thesis by (simp add: round_half_even_def)
  next
    case False
    with f have "\<lfloor>y\<rfloor> + 1 \<le> K" by simp
    then show ?thesis by (simp add: round_half_even_def Let_def)
  qed
qed

lemma round_half_even_ge:
  assumes "of_int K \<le> y"
  shows "K \<le> round_half_even y"
proof -
  have "K \<le> \<lfloor>y\<rfloor>" using assms by (simp add: le_floor_iff)
  then show ?thesis by (simp add: round_half_even_def Let_def)
qed

lemma round_half_even_of_int [simp]: "round_half_even (of_int K) = K"
  by (simp add: round_half_even_def)

lemma quantum_pos [simp]: "0 < quantum p emin x"
  by (simp add: quantum_def)

lemma round_nearest_0 [simp]: "round_nearest p emin 0 = 0"
  by (simp add: round_nearest_def round_half_even_def)

lemma round_nearest_representable:
  assumes "representable p emin emax x"
  shows "round_nearest p emin x = x"
proof -
  define q where "q = quantum p emin x"
  have q: "0 < q" by (simp add: q_def)
  from assms have i: "of_int \<lfloor>x / q\<rfloor> = x / q"
    by (simp add: representable_def Let_def q_def)
  have "round_half_even (x / q) = \<lfloor>x / q\<rfloor>"
    using round_half_even_of_int[of "\<lfloor>x / q\<rfloor>"] i by simp
  then have "round_nearest p emin x = of_int \<lfloor>x / q\<rfloor> * q"
    by (simp add: round_nearest_def Let_def q_def)
  also have "\<dots> = x" using q by (simp add: i)
  finally show ?thesis .
qed

lemma round_half_even_minus: "round_half_even (- y) = - round_half_even y"
proof (cases "y = of_int \<lfloor>y\<rfloor>")
  case True
  then obtain K where "y = of_int K" ..
  then have "- y = of_int (- K)" by simp
  then show ?thesis using \<open>y = of_int K\<close> by (metis round_half_even_of_int)
next
  case False
  define f where "f = \<lfloor>y\<rfloor>"
  have fl: "of_int f < y" "y < of_int f + 1"
    using False unfolding f_def by linarith+
  have nf: "\<lfloor>- y\<rfloor> = - f - 1"
    using fl by (simp add: floor_eq_iff)
  have ev: "even (- f - 1) \<longleftrightarrow> odd f" by simp
  show ?thesis
    unfolding round_half_even_def Let_def nf f_def[symmetric] ev
    using fl by (auto simp: )
qed

lemma expo_minus [simp]: "expo (- x) = expo x"
  by (simp add: expo_def)

lemma round_nearest_minus: "round_nearest p emin (- x) = - round_nearest p emin x"
  by (simp add: round_nearest_def quantum_def Let_def round_half_even_minus)

lemma representable_minus: "representable p emin emax (- x) = representable p emin emax x"
proof -
  have "of_int \<lfloor>- y\<rfloor> = - y \<longleftrightarrow> of_int \<lfloor>y\<rfloor> = y" for y :: real
    by (metis of_int_floor_cancel of_int_minus Ints_minus Ints_of_int minus_minus floor_of_int)
  then show ?thesis
    by (simp add: representable_def quantum_def Let_def)
qed

lemma round_nearest_le:
  assumes rep: "representable p emin emax t" and p: "0 < p" and le: "x \<le> t"
  shows "round_nearest p emin x \<le> t"
proof (cases "x = 0")
  case True
  with le show ?thesis by simp
next
  case x0: False
  define ex where "ex = max (expo x) emin"
  define et where "et = max (expo t) emin"
  define q where "q = pow2 (ex - int p + 1)"
  define qt where "qt = pow2 (et - int p + 1)"
  have q: "0 < q" and qt: "0 < qt" by (simp_all add: q_def qt_def)
  have rn: "round_nearest p emin x = of_int (round_half_even (x / q)) * q"
    by (simp add: round_nearest_def quantum_def Let_def q_def ex_def)
  show ?thesis
  proof (cases "ex \<le> et")
    case True
    define mt where "mt = \<lfloor>t / qt\<rfloor>"
    from rep have "of_int mt = t / qt"
      by (simp add: representable_def quantum_def Let_def qt_def et_def mt_def)
    then have t: "t = of_int mt * qt" using qt by (simp add: field_simps)
    have "qt = of_int (2 ^ nat (et - ex)) * q"
      using pow2_diff_int[of "ex - int p + 1" "et - int p + 1"] True
      by (simp add: q_def qt_def)
    then have tq: "t = of_int (mt * 2 ^ nat (et - ex)) * q"
      using t by simp
    then have "x / q \<le> of_int (mt * 2 ^ nat (et - ex))"
      using le q by (simp add: field_simps)
    then have "round_half_even (x / q) \<le> mt * 2 ^ nat (et - ex)"
      by (rule round_half_even_le)
    then have "of_int (round_half_even (x / q)) * q \<le> of_int (mt * 2 ^ nat (et - ex)) * q"
      using q by (simp only: mult_le_cancel_right_pos of_int_le_iff)
    then show ?thesis using rn tq by simp
  next
    case False
    then have lt: "et < ex" by simp
    have "emin \<le> et" by (simp add: et_def)
    with lt have exx: "ex = expo x" by (simp add: ex_def)
    have "expo t \<le> et" by (simp add: et_def)
    with lt exx have "expo t < expo x" by simp
    then have tlt: "\<bar>t\<bar> < pow2 (expo x)"
      by (cases "t = 0") (simp_all add: below_expo)
    have xge: "pow2 (expo x) \<le> \<bar>x\<bar>" using x0 by (rule expo_bounds)
    have xneg: "x \<le> - pow2 (expo x)" using le tlt xge by linarith
    have pq: "pow2 (expo x) = of_int (2 ^ nat (int p - 1)) * q"
      using pow2_diff_int[of "expo x - int p + 1" "expo x"] p
      by (simp add: q_def exx)
    have "x / q \<le> of_int (- (2 ^ nat (int p - 1)))"
      using xneg q unfolding pq by (simp add: field_simps)
    then have "round_half_even (x / q) \<le> - (2 ^ nat (int p - 1))"
      by (rule round_half_even_le)
    then have "of_int (round_half_even (x / q)) * q \<le> of_int (- (2 ^ nat (int p - 1))) * q"
      using q by (simp only: mult_le_cancel_right_pos of_int_le_iff)
    also have "\<dots> = - pow2 (expo x)" unfolding pq by simp
    finally show ?thesis using rn tlt by linarith
  qed
qed

lemma round_nearest_ge:
  assumes rep: "representable p emin emax t" and p: "0 < p" and le: "t \<le> x"
  shows "t \<le> round_nearest p emin x"
proof -
  have "representable p emin emax (- t)" using rep by (simp add: representable_minus)
  from round_nearest_le[OF this p, of "- x"] le
  show ?thesis by (simp add: round_nearest_minus)
qed

lemma kEpsilon_value: "kEpsilon = 9007199 / 2 ^ 53"
  by (simp add: kEpsilon_def fl64_def fl32_def round_nearest_def quantum_def expo_def ilog2.simps
      clog2_def round_half_even_def Let_def pow2_def)

lemma kUpperLimit_value: "kUpperLimit = 10 ^ 9"
  by (simp add: kUpperLimit_def fl64_def fl32_def round_nearest_def quantum_def expo_def ilog2.simps
      clog2_def round_half_even_def Let_def pow2_def)

lemma kEpsilon_pos: "0 < kEpsilon"
  by (simp add: kEpsilon_value)

lemma equality_bounds_enclose:
  assumes "is_double t"
  shows "c_sub t kEpsilon \<le> t" "t \<le> c_add t kEpsilon"
  using assms kEpsilon_pos
    round_nearest_le[of 53 "- 1022" 1023 t "t - kEpsilon"]
    round_nearest_ge[of 53 "- 1022" 1023 t "t + kEpsilon"]
  by (simp_all add: c_sub_def c_add_def fl64_def is_double_def)

text \<open>
  The two bounds that \<^verbatim>\<open>Solve\<close> computes from a double are doubles again: rounding stays
  on the grid of the format, and the largest double is far enough below \<open>2\<^sup>1\<^sup>0\<^sup>2\<^sup>4\<close> for the
  sums never to reach the range where a machine would produce an infinity.
\<close>

lemma round_half_even_error: "\<bar>of_int (round_half_even y) - y\<bar> \<le> 1 / 2"
proof -
  have "of_int \<lfloor>y\<rfloor> \<le> y" "y < of_int \<lfloor>y\<rfloor> + 1" by linarith+
  then show ?thesis
    by (auto simp: round_half_even_def Let_def)
qed

lemma round_nearest_error:
  "\<bar>round_nearest p emin x - x\<bar> \<le> quantum p emin x / 2"
proof -
  define q where "q = quantum p emin x"
  have q: "0 < q" by (simp add: q_def)
  have "\<bar>of_int (round_half_even (x / q)) * q - x\<bar> = \<bar>of_int (round_half_even (x / q)) - x / q\<bar> * q"
  proof -
    have "of_int (round_half_even (x / q)) * q - x = (of_int (round_half_even (x / q)) - x / q) * q"
      using q by (simp add: field_simps)
    then show ?thesis using q by (simp add: abs_mult)
  qed
  also have "\<dots> \<le> (1 / 2) * q"
    using round_half_even_error[of "x / q"] q by (intro mult_right_mono) simp_all
  finally show ?thesis by (simp add: round_nearest_def Let_def q_def)
qed

lemma round_nearest_abs_le:
  assumes "x \<noteq> 0"
  shows "\<bar>round_nearest p emin x\<bar> \<le> pow2 (max (expo x) emin + 1)"
proof -
  define ex where "ex = max (expo x) emin"
  define q where "q = pow2 (ex - int p + 1)"
  have q: "0 < q" by (simp add: q_def)
  have rn: "round_nearest p emin x = of_int (round_half_even (x / q)) * q"
    by (simp add: round_nearest_def quantum_def Let_def q_def ex_def)
  have top: "pow2 (ex + 1) = of_int (2 ^ p) * q"
    using pow2_diff_int[of "ex - int p + 1" "ex + 1"] by (simp add: q_def)
  have "\<bar>x\<bar> < pow2 (expo x + 1)" using assms by (rule expo_bounds)
  also have "\<dots> \<le> pow2 (ex + 1)" by (simp add: ex_def pow2_mono)
  finally have x: "\<bar>x\<bar> \<le> of_int (2 ^ p) * q" unfolding top by simp
  then have "x / q \<le> of_int (2 ^ p)" "of_int (- (2 ^ p)) \<le> x / q"
    using q by (simp_all add: field_simps abs_le_iff)
  then have "round_half_even (x / q) \<le> 2 ^ p" "- (2 ^ p) \<le> round_half_even (x / q)"
    by (auto intro: round_half_even_le round_half_even_ge)
  then have "\<bar>round_half_even (x / q)\<bar> \<le> 2 ^ p" by simp
  then have "\<bar>of_int (round_half_even (x / q)) :: real\<bar> \<le> of_int (2 ^ p)"
    by (metis of_int_abs of_int_le_iff)
  then have "\<bar>of_int (round_half_even (x / q)) * q\<bar> \<le> of_int (2 ^ p) * q"
    using q by (simp add: abs_mult)
  then show ?thesis unfolding rn top ex_def[symmetric] .
qed

lemma round_nearest_on_grid:
  assumes p: "0 < p"
  shows "\<exists>k. round_nearest p emin x = of_int k * quantum p emin (round_nearest p emin x)"
proof (cases "round_nearest p emin x = 0")
  case True
  then show ?thesis by (intro exI[of _ 0]) simp
next
  case r0: False
  then have x0: "x \<noteq> 0" by auto
  define r where "r = round_nearest p emin x"
  define ex where "ex = max (expo x) emin"
  define er where "er = max (expo r) emin"
  define q where "q = pow2 (ex - int p + 1)"
  have q: "0 < q" by (simp add: q_def)
  have rn: "r = of_int (round_half_even (x / q)) * q"
    by (simp add: r_def round_nearest_def quantum_def Let_def q_def ex_def)
  have qr: "quantum p emin r = pow2 (er - int p + 1)"
    by (simp add: quantum_def er_def)
  have rle: "\<bar>r\<bar> \<le> pow2 (ex + 1)"
    using round_nearest_abs_le[OF x0, of p emin] by (simp add: r_def ex_def)
  have emin: "emin \<le> ex" by (simp add: ex_def)
  show ?thesis
  proof (cases "er \<le> ex")
    case True
    have "q = of_int (2 ^ nat (ex - er)) * pow2 (er - int p + 1)"
      using pow2_diff_int[of "er - int p + 1" "ex - int p + 1"] True by (simp add: q_def)
    then have "r = of_int (round_half_even (x / q) * 2 ^ nat (ex - er)) * quantum p emin r"
      using rn qr by simp
    then show ?thesis unfolding r_def by blast
  next
    case False
    then have "ex < expo r" using emin by (simp add: er_def)
    have "\<not> \<bar>r\<bar> < pow2 (ex + 1)"
    proof
      assume "\<bar>r\<bar> < pow2 (ex + 1)"
      then have "expo r < ex + 1" using r0 unfolding r_def[symmetric] by (intro expo_less) auto
      with \<open>ex < expo r\<close> show False by simp
    qed
    with rle have ab: "\<bar>r\<bar> = pow2 (ex + 1)" by simp
    have "expo r = ex + 1"
    proof -
      have "\<bar>r\<bar> < pow2 (ex + 2)" unfolding ab by (simp add: pow2_strict_mono)
      then have "expo r < ex + 2" using r0 unfolding r_def[symmetric] by (intro expo_less) auto
      with \<open>ex < expo r\<close> show ?thesis by simp
    qed
    then have er: "er = ex + 1" using emin by (simp add: er_def)
    have "pow2 (ex + 1) = of_int (2 ^ nat (int p - 1)) * pow2 (er - int p + 1)"
      using pow2_diff_int[of "er - int p + 1" "ex + 1"] p by (simp add: er)
    then have "r = of_int (2 ^ nat (int p - 1)) * quantum p emin r
        \<or> r = of_int (- (2 ^ nat (int p - 1))) * quantum p emin r"
      using ab qr by (auto simp: abs_if split: if_splits)
    then show ?thesis unfolding r_def by blast
  qed
qed

lemma double_bounded:
  assumes "is_double t"
  shows "\<bar>t\<bar> \<le> pow2 1024 - pow2 971"
proof (cases "t = 0")
  case True
  have "pow2 971 \<le> pow2 1024" by (rule pow2_mono) simp
  with True show ?thesis by simp
next
  case False
  define et where "et = max (expo t) (- 1022)"
  define qt where "qt = pow2 (et - 52)"
  have qt: "0 < qt" by (simp add: qt_def)
  from assms False have e: "expo t \<le> 1023" and g: "of_int \<lfloor>t / qt\<rfloor> = t / qt"
    by (simp_all add: is_double_def representable_def quantum_def Let_def qt_def et_def
        del: of_int_floor_cancel)
  define k where "k = \<lfloor>t / qt\<rfloor>"
  have "t / qt = of_int k" using g by (simp only: k_def)
  then have t: "t = of_int k * qt" using qt by (simp add: field_simps)
  have et: "et \<le> 1023" using e by (simp add: et_def)
  have top: "pow2 (et + 1) = of_int (2 ^ 53) * qt"
    using pow2_diff_int[of "et - 52" "et + 1"] by (simp add: qt_def)
  have "\<bar>t\<bar> < pow2 (expo t + 1)" using False by (rule expo_bounds)
  also have "\<dots> \<le> pow2 (et + 1)" by (simp add: et_def pow2_mono)
  finally have "\<bar>of_int k\<bar> * qt < of_int (2 ^ 53) * qt"
    unfolding top t using qt by (simp add: abs_mult)
  then have "\<bar>of_int k :: real\<bar> < of_int (2 ^ 53)" using qt by simp
  then have "\<bar>k\<bar> < 2 ^ 53" by (metis of_int_abs of_int_less_iff)
  then have "\<bar>k\<bar> \<le> 2 ^ 53 - 1" by simp
  then have "\<bar>of_int k :: real\<bar> \<le> of_int (2 ^ 53 - 1)" by (metis of_int_abs of_int_le_iff)
  then have "\<bar>t\<bar> \<le> of_int (2 ^ 53 - 1) * qt"
    unfolding t using qt by (simp add: abs_mult)
  also have "\<dots> \<le> of_int (2 ^ 53 - 1) * pow2 971"
    using et by (intro mult_left_mono) (simp_all add: qt_def pow2_mono)
  also have "\<dots> = pow2 1024 - pow2 971"
    using pow2_diff_int[of 971 1024] by (simp add: algebra_simps)
  finally show ?thesis .
qed

lemma fl64_is_double:
  assumes "\<bar>x\<bar> < pow2 1024 - pow2 970"
  shows "is_double (fl64 x)"
proof (cases "fl64 x = 0")
  case True
  then show ?thesis by (simp add: is_double_def representable_def Let_def)
next
  case r0: False
  then have x0: "x \<noteq> 0" by (auto simp: fl64_def)
  have "pow2 970 > 0" by simp
  with assms have "\<bar>x\<bar> < pow2 1024" by linarith
  then have "expo x < 1024" using x0 by (rule expo_less)
  then have "max (expo x) (- 1022) - 52 \<le> 971" by simp
  then have "quantum 53 (- 1022) x \<le> pow2 971"
    unfolding quantum_def by (intro pow2_mono) simp
  moreover have "pow2 971 = 2 * pow2 970"
    using pow2_add[of 1 970] by (simp add: pow2_def)
  ultimately have h: "quantum 53 (- 1022) x / 2 \<le> pow2 970" by simp
  have "\<bar>fl64 x\<bar> \<le> \<bar>x\<bar> + \<bar>fl64 x - x\<bar>" by simp
  also have "\<dots> \<le> \<bar>x\<bar> + pow2 970"
    using round_nearest_error[of 53 "- 1022" x] h by (simp add: fl64_def)
  also have "\<dots> < pow2 1024" using assms by simp
  finally have "expo (fl64 x) < 1024" using r0 by (intro expo_less)
  moreover obtain k where "fl64 x = of_int k * quantum 53 (- 1022) (fl64 x)"
    using round_nearest_on_grid[of 53 "- 1022" x] by (auto simp: fl64_def)
  then have "fl64 x / quantum 53 (- 1022) (fl64 x) = of_int k"
    by (metis nonzero_eq_divide_eq quantum_pos less_irrefl)
  ultimately show ?thesis
    by (simp add: is_double_def representable_def Let_def)
qed

lemma kEpsilon_small: "kEpsilon < pow2 970"
proof -
  have "kEpsilon < 1" by (simp add: kEpsilon_value)
  also have "1 = pow2 0" by (simp add: pow2_def)
  also have "\<dots> \<le> pow2 970" by (rule pow2_mono) simp
  finally show ?thesis .
qed

lemma equality_bounds_are_doubles:
  assumes "is_double t"
  shows "is_double (c_sub t kEpsilon)" "is_double (c_add t kEpsilon)"
proof -
  have "pow2 971 = 2 * pow2 970"
    using pow2_add[of 1 970] by (simp add: pow2_def)
  with double_bounded[OF assms] kEpsilon_small kEpsilon_pos
  have b: "\<bar>t - kEpsilon\<bar> < pow2 1024 - pow2 970" "\<bar>t + kEpsilon\<bar> < pow2 1024 - pow2 970"
    by (simp_all add: abs_less_iff abs_le_iff)
  show "is_double (c_sub t kEpsilon)"
    unfolding c_sub_def using b(1) by (rule fl64_is_double)
  show "is_double (c_add t kEpsilon)"
    unfolding c_add_def using b(2) by (rule fl64_is_double)
qed

section \<open>Properties of the parts of Solve\<close>

lemma bnd_Inl [simp]: "bnd (Inl e) f = Inl e"
  by (simp add: bnd_def)

lemma bnd_Inr [simp]: "bnd (Inr v) f = f v"
  by (simp add: bnd_def)

lemma build_problem_empty_kernel:
  "rows (kernel_matrix s) = 0 \<Longrightarrow> build_problem ext s = Inr None"
  by (simp add: build_problem_def)


lemma Solve_early_return:
  "build_problem ext s = Inr None \<Longrightarrow> Solve ext (s, w) = Inr (False, s, w)"
  by (simp add: Solve_def)

lemma solved_params_loop:
  assumes "rows M = n" "cols M = 1" "workspaces w a = Some ws"
  shows "for_loop i n (\<lambda>i M. bnd (solution_at (Some a) w i) (\<lambda>x. set_coeff M i 0 x)) M =
         Inr (M\<lparr>coeffs := (\<lambda>i' j'. if i \<le> i' \<and> i' < n \<and> j' = 0 then solution_x ws i'
                                     else coeffs M i' j')\<rparr>)"
  using assms
proof (induction "n - i" arbitrary: i M)
  case 0
  then have "\<not> i < n" by simp
  then have "(\<lambda>i' j'. if i \<le> i' \<and> i' < n \<and> j' = 0 then solution_x ws i' else coeffs M i' j') = coeffs M"
    by (intro ext) auto
  with \<open>\<not> i < n\<close> show ?case
    by (subst for_loop.simps) simp
next
  case (Suc k)
  then have lt: "i < n" by simp
  let ?M1 = "M\<lparr>coeffs := (\<lambda>i' j'. if i' = i \<and> j' = 0 then solution_x ws i else coeffs M i' j')\<rparr>"
  have step: "bnd (solution_at (Some a) w i) (\<lambda>x. set_coeff M i 0 x) = Inr ?M1"
    using Suc.prems lt by (simp add: solution_at_def set_coeff_def)
  have "k = n - Suc i" using Suc.hyps(2) by simp
  from Suc.hyps(1)[OF this, of ?M1] Suc.prems
  have IH: "for_loop (Suc i) n (\<lambda>i M. bnd (solution_at (Some a) w i) (\<lambda>x. set_coeff M i 0 x)) ?M1 =
         Inr (?M1\<lparr>coeffs := (\<lambda>i' j'. if Suc i \<le> i' \<and> i' < n \<and> j' = 0 then solution_x ws i'
                                     else coeffs ?M1 i' j')\<rparr>)"
    by simp
  have eq: "(\<lambda>i' j'. if Suc i \<le> i' \<and> i' < n \<and> j' = 0 then solution_x ws i' else coeffs ?M1 i' j')
      = (\<lambda>i' j'. if i \<le> i' \<and> i' < n \<and> j' = 0 then solution_x ws i' else coeffs M i' j')"
    using lt by (intro ext) auto
  show ?case
    by (subst for_loop.simps) (simp add: lt step IH eq)
qed

lemma solved_params_eq:
  assumes "workspaces w a = Some ws"
  shows "solved_params n (Some a) w =
         Inr \<lparr>rows = n, cols = 1,
              coeffs = (\<lambda>i j. if i < n \<and> j = 0 then solution_x ws i else 0)\<rparr>"
proof -
  have "(\<lambda>i' j'. if 0 \<le> i' \<and> i' < n \<and> j' = 0 then solution_x ws i' else coeffs (Zero n 1) i' j')
      = (\<lambda>i j. if i < n \<and> j = 0 then solution_x ws i else 0)"
    by (intro ext) (simp add: Zero_def)
  then show ?thesis
    unfolding solved_params_def
    by (subst solved_params_loop[OF _ _ assms]) (simp_all add: Zero_def)
qed

lemma Solve_reaches_solver:
  assumes built: "build_problem ext s = Inr (Some d)"
    and ptrs: "usable (data_' s)" "usable (settings_' s)"
    and su: "setup_result ext d (pointee (settings_' s)) = Some ws"
  shows "Solve ext (s, w) =
         (let params = \<lparr>rows = data_n d, cols = 1,
                         coeffs = (\<lambda>i j. if i < data_n d \<and> j = 0
                                          then solution_x (solve_result ext ws) i else 0)\<rparr>;
              r = SetSplineSegs ext (spline_' s) params (spline_order ext (spline_' s))
          in Inr (fst r,
                  s\<lparr>data_' := Val d, work_' := Some (next_addr w),
                    last_num_param_' := int (data_n d), last_num_constraint_' := int (data_m d),
                    spline_' := snd r\<rparr>,
                  w\<lparr>workspaces := (workspaces w)(next_addr w \<mapsto> solve_result ext ws),
                    next_addr := next_addr w + 1,
                    calls := calls w @ [CallSetup (Some (next_addr w)), CallSolve (next_addr w)]\<rparr>))"
proof -
  have d: "(case data_' s of Null \<Rightarrow> Inl NullPointer | Freed \<Rightarrow> Inl DanglingPointer
             | _ \<Rightarrow> Inr (s\<lparr>data_' := Val d\<rparr>)) = Inr (s\<lparr>data_' := Val d\<rparr>)"
    using ptrs(1) by (cases "data_' s") (simp_all add: usable_def)
  have st: "(case settings_' s of Null \<Rightarrow> Inl NullPointer | Freed \<Rightarrow> Inl DanglingPointer
             | Uninit \<Rightarrow> Inr None | Val v \<Rightarrow> Inr (Some v)) = Inr (pointee (settings_' s))"
    using ptrs(2) by (cases "settings_' s") (simp_all add: usable_def pointee_def)
  show ?thesis
    by (simp add: Solve_def built d st osqp_setup_def su osqp_solve_def solved_params_eq Let_def
        split: prod.splits)
qed

lemma bounds_body_Inr:
  assumes "bounds_body ib eb i (l, u) = Inr (l1, u1)" "length l = n" "length u = n"
  shows "l1 = l[i := Some (if i < rows ib then coeffs ib i 0
                           else c_sub (coeffs eb (i - rows ib) 0) kEpsilon)]
       \<and> u1 = u[i := Some (if i < rows ib then kUpperLimit
                           else c_add (coeffs eb (i - rows ib) 0) kEpsilon)]
       \<and> i < n"
  using assms
  by (auto simp: bounds_body_def coeff_def store_def bnd_def Let_def split: if_splits sum.splits)

lemma bounds_loop_result:
  assumes "for_loop i n (bounds_body ib eb) (l, u) = Inr (l', u')" "length l = n" "length u = n"
  shows "length l' = n \<and> length u' = n \<and>
         (\<forall>k<n. l' ! k = (if i \<le> k then Some (if k < rows ib then coeffs ib k 0
                                                 else c_sub (coeffs eb (k - rows ib) 0) kEpsilon)
                           else l ! k) \<and>
                 u' ! k = (if i \<le> k then Some (if k < rows ib then kUpperLimit
                                                 else c_add (coeffs eb (k - rows ib) 0) kEpsilon)
                           else u ! k))"
  using assms
proof (induction "n - i" arbitrary: i l u)
  case 0
  then have "\<not> i < n" by simp
  with 0 show ?case
    by (subst (asm) for_loop.simps) auto
next
  case (Suc m)
  then have lt: "i < n" by simp
  from Suc.prems(1) lt obtain l1 u1 where
    body: "bounds_body ib eb i (l, u) = Inr (l1, u1)"
    and rest: "for_loop (Suc i) n (bounds_body ib eb) (l1, u1) = Inr (l', u')"
    by (subst (asm) for_loop.simps) (auto split: sum.splits)
  note b = bounds_body_Inr[OF body Suc.prems(2,3)]
  have len: "length l1 = n" "length u1 = n"
    using b Suc.prems by simp_all
  have m: "m = n - Suc i" using Suc.hyps(2) by simp
  note IH = Suc.hyps(1)[OF m rest len]
  show ?case
  proof (intro conjI allI impI)
    show "length l' = n" "length u' = n" using IH by simp_all
  next
    fix k assume k: "k < n"
    show "l' ! k = (if i \<le> k then Some (if k < rows ib then coeffs ib k 0
                                                 else c_sub (coeffs eb (k - rows ib) 0) kEpsilon)
                           else l ! k)"
      using IH k b Suc.prems(2) by (cases "k = i") (auto simp: not_less_eq_eq)
    show "u' ! k = (if i \<le> k then Some (if k < rows ib then kUpperLimit
                                                 else c_add (coeffs eb (k - rows ib) 0) kEpsilon)
                           else u ! k)"
      using IH k b Suc.prems(3) by (cases "k = i") (auto simp: not_less_eq_eq)
  qed
qed

lemma set_bounds_result:
  assumes "set_bounds ib eb = Inr (l, u)"
  shows "length l = rows ib + rows eb \<and> length u = rows ib + rows eb \<and>
         (\<forall>k < rows ib + rows eb.
            l ! k = Some (if k < rows ib then coeffs ib k 0
                          else c_sub (coeffs eb (k - rows ib) 0) kEpsilon) \<and>
            u ! k = Some (if k < rows ib then kUpperLimit
                          else c_add (coeffs eb (k - rows ib) 0) kEpsilon))"
  using bounds_loop_result[of 0 "rows ib + rows eb" ib eb "new_array (rows ib + rows eb)"
      "new_array (rows ib + rows eb)" l u] assms
  by (simp add: set_bounds_def Let_def new_array_def)

lemma build_problem_Some:
  assumes "build_problem ext s = Inr (Some d)"
  shows "\<exists>A. constraint_matrix_A s = Inr A \<and> 0 < rows A"
    and "set_bounds (inequality_constraint_boundary s) (equality_constraint_boundary s)
           = Inr (data_l d, data_u d)"
    and "data_n d = rows (kernel_matrix s)" "0 < data_n d"
    and "data_m d = rows (inequality_constraint_boundary s) + rows (equality_constraint_boundary s)"
  using assms
  by (auto simp: build_problem_def Let_def bnd_def split: if_splits sum.splits prod.splits)

lemma build_problem_A:
  assumes "build_problem ext s = Inr (Some d)" "constraint_matrix_A s = Inr A"
  shows "data_A d =
           (case DenseToCSCMatrix ext A of
              (A_data, A_indices, A_indptr) \<Rightarrow>
                csc_matrix (data_m d) (data_n d) (length A_data) A_data A_indices A_indptr)"
  using assms
  by (auto simp: build_problem_def Let_def bnd_def split: if_splits sum.splits prod.splits)

lemma build_problem_empty_A:
  assumes "constraint_matrix_A s = Inr A" "rows A = 0"
  shows "build_problem ext s = Inr None"
  using assms by (simp add: build_problem_def Let_def split: prod.splits)

lemma problem_bounds:
  assumes "build_problem ext s = Inr (Some d)"
    and "k < rows (inequality_constraint_boundary s) + rows (equality_constraint_boundary s)"
  shows "data_l d ! k =
           Some (if k < rows (inequality_constraint_boundary s)
                 then coeffs (inequality_constraint_boundary s) k 0
                 else c_sub (coeffs (equality_constraint_boundary s)
                               (k - rows (inequality_constraint_boundary s)) 0) kEpsilon)"
    and "data_u d ! k =
           Some (if k < rows (inequality_constraint_boundary s)
                 then kUpperLimit
                 else c_add (coeffs (equality_constraint_boundary s)
                               (k - rows (inequality_constraint_boundary s)) 0) kEpsilon)"
  using set_bounds_result[OF build_problem_Some(2)[OF assms(1)]] assms(2)
  by simp_all

lemma build_problem_frame:
  "build_problem ext (s\<lparr>data_' := dp, work_' := wp, last_num_param_' := p,
                       last_num_constraint_' := c, spline_' := sp\<rparr>) = build_problem ext s"
  by (simp add: build_problem_def constraint_matrix_A_def Let_def cong: if_cong prod.case_cong)

section \<open>The example, evaluated\<close>

lemma replicate_2: "replicate 2 v = [v, v]"
  by (simp add: numeral_2_eq_2)

lemmas example_defs =
  example_solver_def OsqpSpline1dSolver_def example_base_def example_externals_def
  example_data_def toCSC_def column_entries_def upt_rec constraint_matrix_A_def
  comma_initializer_def copy_offset_def coeff_index_def msize_def csc_matrix_def set_bounds_def
  mat_def bounds_body_def for_loop.simps new_array_def store_def coeff_def Let_def replicate_2

lemma example_build:
  "build_problem (example_externals st x) (example_solver b t) = Inr (Some (example_data b t))"
  by (simp add: build_problem_def example_defs)

lemma example_pointers:
  "usable (data_' (example_solver b t))" "usable (settings_' (example_solver b t))"
  by (simp_all add: example_solver_def OsqpSpline1dSolver_def usable_def)

lemma example_setup:
  "setup_result (example_externals st x) d v = Some \<lparr>solution_x = (\<lambda>i. 0), status_val = OSQP_UNSOLVED\<rparr>"
  by (simp add: example_externals_def)

lemmas fp_eval =
  fl64_def fl32_def round_nearest_def representable_def is_double_def quantum_def expo_def
  ilog2.simps clog2_def round_half_even_def Let_def pow2_def

lemma big_target_rounds:
  "c_sub (10 ^ 9) kEpsilon = 10 ^ 9" "c_add (10 ^ 9) kEpsilon = 10 ^ 9"
  by (simp_all add: c_sub_def c_add_def kEpsilon_value fp_eval)

section \<open>Properties of the solver\<close>

text \<open>
  C1, as amended. \<^verbatim>\<open>Solve\<close> never reads the solver's status. In every solve call that reaches
  the solver and in which OSQP reports non-convergence (the iteration limit) or
  infeasibility, the \<open>n\<close> entries of the workspace's solution vector are still copied into an
  \<open>n \<times> 1\<close> matrix and passed to \<^verbatim>\<open>SetSplineSegs\<close>, and \<^verbatim>\<open>Solve\<close> returns what that operation
  returns.
\<close>

theorem Solve_ignores_status:
  assumes "build_problem ext s = Inr (Some d)"
    and "usable (data_' s)" "usable (settings_' s)"
    and "setup_result ext d (pointee (settings_' s)) = Some ws"
    and "status_val (solve_result ext ws)
           \<in> {OSQP_MAX_ITER_REACHED, OSQP_PRIMAL_INFEASIBLE, OSQP_DUAL_INFEASIBLE}"
  shows "\<exists>s' w'.
           Solve ext (s, w) =
             Inr (fst (SetSplineSegs ext (spline_' s)
                         \<lparr>rows = rows (kernel_matrix s), cols = 1,
                          coeffs = (\<lambda>i j. if i < rows (kernel_matrix s) \<and> j = 0
                                           then solution_x (solve_result ext ws) i else 0)\<rparr>
                         (spline_order ext (spline_' s))),
                  s', w')
           \<and> spline_' s' =
               snd (SetSplineSegs ext (spline_' s)
                      \<lparr>rows = rows (kernel_matrix s), cols = 1,
                       coeffs = (\<lambda>i j. if i < rows (kernel_matrix s) \<and> j = 0
                                        then solution_x (solve_result ext ws) i else 0)\<rparr>
                      (spline_order ext (spline_' s)))"
proof -
  have n: "data_n d = rows (kernel_matrix s)"
    using assms(1) by (rule build_problem_Some)
  show ?thesis
    unfolding Solve_reaches_solver[OF assms(1-4)] n Let_def by simp
qed

theorem Solve_ignores_status_witness:
  "build_problem (example_externals OSQP_PRIMAL_INFEASIBLE (\<lambda>i. 7)) (example_solver 1 3)
     = Inr (Some (example_data 1 3))
   \<and> usable (data_' (example_solver 1 3)) \<and> usable (settings_' (example_solver 1 3))
   \<and> setup_result (example_externals OSQP_PRIMAL_INFEASIBLE (\<lambda>i. 7)) (example_data 1 3)
        (pointee (settings_' (example_solver 1 3)))
       = Some \<lparr>solution_x = (\<lambda>i. 0), status_val = OSQP_UNSOLVED\<rparr>
   \<and> status_val (solve_result (example_externals OSQP_PRIMAL_INFEASIBLE (\<lambda>i. 7))
        \<lparr>solution_x = (\<lambda>i. 0), status_val = OSQP_UNSOLVED\<rparr>) = OSQP_PRIMAL_INFEASIBLE
   \<and> (\<exists>s' w'. Solve (example_externals OSQP_PRIMAL_INFEASIBLE (\<lambda>i. 7))
                  (example_solver 1 3, empty_world) = Inr (True, s', w')
              \<and> spline_' s' = [7, 7])"
proof -
  let ?E = "example_externals OSQP_PRIMAL_INFEASIBLE (\<lambda>i. 7)"
  have st: "status_val (solve_result ?E \<lparr>solution_x = (\<lambda>i. 0), status_val = OSQP_UNSOLVED\<rparr>)
      = OSQP_PRIMAL_INFEASIBLE"
    by (simp add: example_externals_def)
  then have st': "status_val (solve_result ?E \<lparr>solution_x = (\<lambda>i. 0), status_val = OSQP_UNSOLVED\<rparr>)
      \<in> {OSQP_MAX_ITER_REACHED, OSQP_PRIMAL_INFEASIBLE, OSQP_DUAL_INFEASIBLE}"
    by simp
  have k: "rows (kernel_matrix (example_solver 1 3)) = 2" "spline_' (example_solver 1 3) = []"
    by (simp_all add: example_solver_def OsqpSpline1dSolver_def example_base_def mat_def)
  have ev: "SetSplineSegs ?E [] \<lparr>rows = 2, cols = 1,
         coeffs = (\<lambda>i j. if i < 2 \<and> j = 0
                     then solution_x (solve_result ?E \<lparr>solution_x = (\<lambda>i. 0), status_val = OSQP_UNSOLVED\<rparr>) i
                     else 0)\<rparr> (spline_order ?E []) = (True, [7, 7])"
    by (simp add: example_externals_def upt_rec)
  show ?thesis
    using Solve_ignores_status[OF example_build[of _ _ 1 3] example_pointers[of 1 3]
        example_setup st', where w = empty_world]
      example_build[of OSQP_PRIMAL_INFEASIBLE "\<lambda>i. 7" 1 3] example_pointers[of 1 3]
      example_setup[of OSQP_PRIMAL_INFEASIBLE "\<lambda>i. 7"] st
    unfolding k ev by simp
qed

text \<open>
  C1 as stated fails: on the example problem, with a solver that stops at the iteration
  limit and leaves the zero vector as its iterate, \<^verbatim>\<open>Solve\<close> returns true and the spline
  has received the zero vector.
\<close>

theorem Solve_succeeds_on_unconverged_zero:
  "(case Solve (example_externals OSQP_MAX_ITER_REACHED (\<lambda>i. 0)) (example_solver 1 3, empty_world) of
      Inl e \<Rightarrow> False
    | Inr (ok, s', w') \<Rightarrow>
        ok \<and> spline_' s' = [0, 0]
        \<and> map_option status_val (workspaces w' 0) = Some OSQP_MAX_ITER_REACHED)"
  unfolding Solve_reaches_solver[OF example_build example_pointers example_setup]
  by (simp add: example_data_def example_externals_def empty_world_def upt_rec
      example_solver_def OsqpSpline1dSolver_def example_base_def)

text \<open>
  C2 (every successful setup of a workspace is matched by exactly one cleanup before the next
  setup or before destruction) does not hold of the code. A solver is constructed for the
  example problem, \<^verbatim>\<open>Solve\<close> is called twice and the solver is destroyed: OSQP sets up two
  workspaces, at addresses 0 and 1; the second \<^verbatim>\<open>Solve\<close> overwrites \<^verbatim>\<open>work_\<close> without
  releasing workspace 0; the destructor releases workspace 1 only, and workspace 0 is still
  allocated at the end.
\<close>

theorem second_Solve_leaks_workspace:
  "(case lifetime (example_externals OSQP_SOLVED (\<lambda>i. if i = 0 then 1 else 3)) (example_base 1 3)
           None [OpSolve, OpSolve] empty_world of
      Inl e \<Rightarrow> False
    | Inr (s, w) \<Rightarrow>
        calls w = [CallSetup (Some 0), CallSolve 0, CallSetup (Some 1), CallSolve 1,
                   CallCleanup (Some 1)]
        \<and> dom (workspaces w) = {0})"
proof -
  let ?E = "example_externals OSQP_SOLVED (\<lambda>i. if i = 0 then 1 else 3)"
  have c: "OsqpSpline1dSolver ?E (example_base 1 3) None
      = example_solver 1 3"
    by (simp add: example_solver_def OsqpSpline1dSolver_def example_externals_def)
  note s1 = Solve_reaches_solver[OF example_build[of OSQP_SOLVED "\<lambda>i. if i = 0 then 1 else 3" 1 3]
      example_pointers example_setup, where w = empty_world]
  show ?thesis
    unfolding lifetime_def c
    apply (simp add: s1 Let_def)
    apply (subst Solve_reaches_solver[where d = "example_data 1 3"
          and ws = "\<lparr>solution_x = (\<lambda>i. 0), status_val = OSQP_UNSOLVED\<rparr>"])
        apply (simp add: build_problem_frame example_build)
       apply (simp add: usable_def)
      apply (simp add: example_pointers)
     apply (simp add: example_setup)
    apply (simp add: Let_def destroy_def CleanUp_def osqp_cleanup_def empty_world_def
        example_solver_def OsqpSpline1dSolver_def)
    done
qed

text \<open>
  C3, as amended. For every assembled constraint system and every equality row (the row at
  offset \<open>idx\<close> past the inequality block, with target \<open>t\<close> the equality boundary value at
  \<open>idx\<close>): \<open>l\<close> is \<open>t - \<epsilon>\<close> and \<open>u\<close> is \<open>t + \<epsilon>\<close>, each rounded to the nearest double, where
  \<open>\<epsilon>\<close> is the \<^verbatim>\<open>float\<close> constant \<^verbatim>\<open>kEpsilon\<close>, that is \<open>9007199 / 2\<^sup>5\<^sup>3\<close>, the single
  precision number nearest to \<open>10\<^sup>-\<^sup>9\<close>. When \<open>t - \<epsilon>\<close> and \<open>t + \<epsilon>\<close> are doubles themselves,
  \<open>u - l = 2 \<epsilon>\<close> and \<open>(u + l) / 2 = t\<close>.
\<close>

theorem equality_row_bounds:
  assumes "build_problem ext s = Inr (Some d)"
    and "idx < rows (equality_constraint_boundary s)"
  shows "data_l d ! (rows (inequality_constraint_boundary s) + idx)
           = Some (fl64 (coeffs (equality_constraint_boundary s) idx 0 - kEpsilon))
       \<and> data_u d ! (rows (inequality_constraint_boundary s) + idx)
           = Some (fl64 (coeffs (equality_constraint_boundary s) idx 0 + kEpsilon))
       \<and> kEpsilon = 9007199 / 2 ^ 53
       \<and> (is_double (coeffs (equality_constraint_boundary s) idx 0 - kEpsilon)
            \<and> is_double (coeffs (equality_constraint_boundary s) idx 0 + kEpsilon)
          \<longrightarrow> fl64 (coeffs (equality_constraint_boundary s) idx 0 + kEpsilon)
                - fl64 (coeffs (equality_constraint_boundary s) idx 0 - kEpsilon) = 2 * kEpsilon
            \<and> (fl64 (coeffs (equality_constraint_boundary s) idx 0 + kEpsilon)
                + fl64 (coeffs (equality_constraint_boundary s) idx 0 - kEpsilon)) / 2
              = coeffs (equality_constraint_boundary s) idx 0)"
proof -
  have ex: "is_double x \<Longrightarrow> fl64 x = x" for x
    unfolding is_double_def fl64_def by (rule round_nearest_representable)
  show ?thesis
    using problem_bounds[OF assms(1), of "rows (inequality_constraint_boundary s) + idx"] assms(2)
      kEpsilon_value
    by (auto simp: c_sub_def c_add_def ex)
qed

theorem equality_row_bounds_witness:
  "build_problem (example_externals OSQP_SOLVED (\<lambda>i. 0)) (example_solver 1 0)
     = Inr (Some (example_data 1 0))
   \<and> (0::nat) < rows (equality_constraint_boundary (example_solver 1 0))
   \<and> coeffs (equality_constraint_boundary (example_solver 1 0)) 0 0 = 0
   \<and> is_double (0 - kEpsilon) \<and> is_double (0 + kEpsilon)
   \<and> data_l (example_data 1 0) ! 1 = Some (- kEpsilon)
   \<and> data_u (example_data 1 0) ! 1 = Some kEpsilon
   \<and> fl64 (0 + kEpsilon) - fl64 (0 - kEpsilon) = 2 * kEpsilon
   \<and> (fl64 (0 + kEpsilon) + fl64 (0 - kEpsilon)) / 2 = 0"
proof -
  have r: "(0::nat) < rows (equality_constraint_boundary (example_solver 1 0))"
    "coeffs (equality_constraint_boundary (example_solver 1 0)) 0 0 = 0"
    "rows (inequality_constraint_boundary (example_solver 1 0)) = 1"
    by (simp_all add: example_solver_def OsqpSpline1dSolver_def example_base_def mat_def)
  have d: "is_double (0 - kEpsilon)" "is_double (0 + kEpsilon)"
    by (simp_all add: kEpsilon_value fp_eval del: of_int_floor_cancel)
  have f: "fl64 (0 - kEpsilon) = - kEpsilon" "fl64 (0 + kEpsilon) = kEpsilon"
    by (simp_all add: kEpsilon_value fp_eval)
  show ?thesis
    using equality_row_bounds[OF example_build[of OSQP_SOLVED "\<lambda>i. 0" 1 0] r(1)]
      example_build[of OSQP_SOLVED "\<lambda>i. 0" 1 0] r d
    unfolding r f by simp
qed

text \<open>
  C3 as stated fails: for the target \<open>10\<^sup>9\<close> both sums round back to the target, so the
  two bounds of the equality row are equal and their difference is not \<open>2 \<epsilon>\<close>.
\<close>

theorem equality_bounds_collapse:
  "(case build_problem (example_externals OSQP_SOLVED (\<lambda>i. 0)) (example_solver 1 (10 ^ 9)) of
      Inr (Some d) \<Rightarrow>
        data_l d ! 1 = Some (10 ^ 9) \<and> data_u d ! 1 = Some (10 ^ 9)
        \<and> (10 ^ 9 :: real) - 10 ^ 9 \<noteq> 2 * kEpsilon
    | _ \<Rightarrow> False)"
proof -
  have "(10 ^ 9 :: real) - 10 ^ 9 \<noteq> 2 * kEpsilon"
    by (simp add: kEpsilon_value)
  then show ?thesis
    unfolding example_build
    by (simp add: example_data_def big_target_rounds[simplified])
qed

text \<open>
  C4. For every assembled constraint system (a problem \<open>d\<close> that \<^verbatim>\<open>Solve\<close> hands to OSQP) and
  every inequality row \<open>i\<close>: \<open>l[i]\<close> is the \<open>i\<close>-th inequality boundary value and \<open>u[i]\<close> is
  the sentinel \<^verbatim>\<open>kUpperLimit\<close>, whose value is exactly \<open>10\<^sup>9\<close>.
\<close>

theorem inequality_row_bounds:
  assumes "build_problem ext s = Inr (Some d)"
    and "i < rows (inequality_constraint_boundary s)"
  shows "data_l d ! i = Some (coeffs (inequality_constraint_boundary s) i 0)
       \<and> data_u d ! i = Some kUpperLimit \<and> kUpperLimit = 10 ^ 9"
  using problem_bounds[OF assms(1), of i] assms(2) kUpperLimit_value
  by simp

theorem inequality_row_bounds_witness:
  "build_problem (example_externals OSQP_SOLVED (\<lambda>i. 0)) (example_solver 1 3)
     = Inr (Some (example_data 1 3))
   \<and> (0::nat) < rows (inequality_constraint_boundary (example_solver 1 3))
   \<and> coeffs (inequality_constraint_boundary (example_solver 1 3)) 0 0 = 1
   \<and> data_l (example_data 1 3) ! 0 = Some 1
   \<and> data_u (example_data 1 3) ! 0 = Some (10 ^ 9)"
proof -
  have r: "(0::nat) < rows (inequality_constraint_boundary (example_solver 1 3))"
    "coeffs (inequality_constraint_boundary (example_solver 1 3)) 0 0 = 1"
    by (simp_all add: example_solver_def OsqpSpline1dSolver_def example_base_def mat_def)
  show ?thesis
    using inequality_row_bounds[OF example_build[of OSQP_SOLVED "\<lambda>i. 0" 1 3] r(1)]
      example_build[of OSQP_SOLVED "\<lambda>i. 0" 1 3] r
    by simp
qed

text \<open>
  C5, as amended. For every pair of inequality and equality constraint blocks from which
  \<^verbatim>\<open>Solve\<close> assembles a problem and in which each boundary has as many rows as its matrix, the
  combined matrix \<open>A\<close>, which is the one converted and handed to OSQP with \<open>m\<close> its number of
  rows, has the rows of the inequality matrix at the indices below \<open>inequalityRows\<close> and the
  rows of the equality matrix after them, and the bounds follow the same split: row \<open>i\<close> of
  the inequality block has its bounds at index \<open>i\<close>, row \<open>i\<close> of the equality block at index
  \<open>inequalityRows + i\<close>.
\<close>

theorem constraint_rows_split:
  assumes "build_problem ext s = Inr (Some d)"
    and "rows (inequality_constraint_boundary s) = rows (inequality_constraint_matrix s)"
    and "rows (equality_constraint_boundary s) = rows (equality_constraint_matrix s)"
  shows "\<exists>A. constraint_matrix_A s = Inr A
           \<and> rows A = rows (inequality_constraint_matrix s) + rows (equality_constraint_matrix s)
           \<and> data_m d = rows A
           \<and> data_A d =
               (case DenseToCSCMatrix ext A of
                  (A_data, A_indices, A_indptr) \<Rightarrow>
                    csc_matrix (data_m d) (data_n d) (length A_data) A_data A_indices A_indptr)
           \<and> (\<forall>i j. i < rows (inequality_constraint_matrix s) \<longrightarrow>
                  coeffs A i j = coeffs (inequality_constraint_matrix s) i j
                  \<and> data_l d ! i = Some (coeffs (inequality_constraint_boundary s) i 0)
                  \<and> data_u d ! i = Some kUpperLimit)
           \<and> (\<forall>i j. i < rows (equality_constraint_matrix s) \<longrightarrow>
                  coeffs A (rows (inequality_constraint_matrix s) + i) j
                    = coeffs (equality_constraint_matrix s) i j
                  \<and> data_l d ! (rows (inequality_constraint_matrix s) + i)
                    = Some (c_sub (coeffs (equality_constraint_boundary s) i 0) kEpsilon)
                  \<and> data_u d ! (rows (inequality_constraint_matrix s) + i)
                    = Some (c_add (coeffs (equality_constraint_boundary s) i 0) kEpsilon))"
proof -
  from build_problem_Some(1)[OF assms(1)] obtain A where
    A: "constraint_matrix_A s = Inr A" by blast
  then have sh: "rows A = rows (inequality_constraint_matrix s) + rows (equality_constraint_matrix s)"
    "coeffs A = (\<lambda>i j. if i < rows (inequality_constraint_matrix s)
                        then coeffs (inequality_constraint_matrix s) i j
                        else coeffs (equality_constraint_matrix s)
                               (i - rows (inequality_constraint_matrix s)) j)"
    by (auto simp: constraint_matrix_A_def comma_initializer_def split: if_splits)
  have m: "data_m d = rows A"
    using build_problem_Some(5)[OF assms(1)] assms(2,3) sh(1) by simp
  have a: "data_A d =
      (case DenseToCSCMatrix ext A of
         (A_data, A_indices, A_indptr) \<Rightarrow>
           csc_matrix (data_m d) (data_n d) (length A_data) A_data A_indices A_indptr)"
    using assms(1) A by (rule build_problem_A)
  have ineq: "data_l d ! i = Some (coeffs (inequality_constraint_boundary s) i 0)
      \<and> data_u d ! i = Some kUpperLimit" if "i < rows (inequality_constraint_matrix s)" for i
    using problem_bounds[OF assms(1), of i] that assms(2) by simp
  have eq: "data_l d ! (rows (inequality_constraint_matrix s) + i)
        = Some (c_sub (coeffs (equality_constraint_boundary s) i 0) kEpsilon)
      \<and> data_u d ! (rows (inequality_constraint_matrix s) + i)
        = Some (c_add (coeffs (equality_constraint_boundary s) i 0) kEpsilon)"
    if "i < rows (equality_constraint_matrix s)" for i
    using problem_bounds[OF assms(1), of "rows (inequality_constraint_matrix s) + i"] that assms(2,3)
    by simp
  show ?thesis
  proof (intro exI[of _ A] conjI allI impI)
    show "constraint_matrix_A s = Inr A" by (rule A)
    show "rows A = rows (inequality_constraint_matrix s) + rows (equality_constraint_matrix s)"
      by (rule sh(1))
    show "data_m d = rows A" by (rule m)
    show "data_A d =
      (case DenseToCSCMatrix ext A of
         (A_data, A_indices, A_indptr) \<Rightarrow>
           csc_matrix (data_m d) (data_n d) (length A_data) A_data A_indices A_indptr)"
      by (rule a)
  qed (use ineq eq in \<open>simp_all add: sh(2)\<close>)
qed

theorem constraint_rows_split_witness:
  "build_problem (example_externals OSQP_SOLVED (\<lambda>i. 0)) (example_solver 1 3)
     = Inr (Some (example_data 1 3))
   \<and> rows (inequality_constraint_boundary (example_solver 1 3))
       = rows (inequality_constraint_matrix (example_solver 1 3))
   \<and> rows (equality_constraint_boundary (example_solver 1 3))
       = rows (equality_constraint_matrix (example_solver 1 3))
   \<and> (\<exists>A. constraint_matrix_A (example_solver 1 3) = Inr A \<and> rows A = 2
          \<and> data_m (example_data 1 3) = 2
          \<and> coeffs A 0 0 = 1 \<and> coeffs A 0 1 = 0 \<and> coeffs A 1 0 = 0 \<and> coeffs A 1 1 = 1
          \<and> data_l (example_data 1 3) ! 0 = Some 1
          \<and> data_u (example_data 1 3) ! 0 = Some kUpperLimit
          \<and> data_l (example_data 1 3) ! 1 = Some (c_sub 3 kEpsilon)
          \<and> data_u (example_data 1 3) ! 1 = Some (c_add 3 kEpsilon))"
proof -
  have r: "rows (inequality_constraint_boundary (example_solver 1 3)) = 1"
    "rows (inequality_constraint_matrix (example_solver 1 3)) = 1"
    "rows (equality_constraint_boundary (example_solver 1 3)) = 1"
    "rows (equality_constraint_matrix (example_solver 1 3)) = 1"
    "coeffs (inequality_constraint_matrix (example_solver 1 3)) 0 = (\<lambda>j. [1, 0] ! j)"
    "coeffs (equality_constraint_matrix (example_solver 1 3)) 0 = (\<lambda>j. [0, 1] ! j)"
    "coeffs (inequality_constraint_boundary (example_solver 1 3)) 0 0 = 1"
    "coeffs (equality_constraint_boundary (example_solver 1 3)) 0 0 = 3"
    by (simp_all add: example_solver_def OsqpSpline1dSolver_def example_base_def mat_def)
  have w: "rows (inequality_constraint_boundary (example_solver 1 3))
       = rows (inequality_constraint_matrix (example_solver 1 3))"
    "rows (equality_constraint_boundary (example_solver 1 3))
       = rows (equality_constraint_matrix (example_solver 1 3))"
    by (simp_all add: r)
  from constraint_rows_split[OF example_build[of OSQP_SOLVED "\<lambda>i. 0" 1 3] w]
  obtain A where A: "constraint_matrix_A (example_solver 1 3) = Inr A"
    "rows A = 2" "data_m (example_data 1 3) = rows A"
    and i: "\<And>i j. i < 1 \<Longrightarrow> coeffs A i j = coeffs (inequality_constraint_matrix (example_solver 1 3)) i j
                  \<and> data_l (example_data 1 3) ! i
                      = Some (coeffs (inequality_constraint_boundary (example_solver 1 3)) i 0)
                  \<and> data_u (example_data 1 3) ! i = Some kUpperLimit"
    and e: "\<And>i j. i < 1 \<Longrightarrow> coeffs A (1 + i) j = coeffs (equality_constraint_matrix (example_solver 1 3)) i j
                  \<and> data_l (example_data 1 3) ! (1 + i)
                    = Some (c_sub (coeffs (equality_constraint_boundary (example_solver 1 3)) i 0) kEpsilon)
                  \<and> data_u (example_data 1 3) ! (1 + i)
                    = Some (c_add (coeffs (equality_constraint_boundary (example_solver 1 3)) i 0) kEpsilon)"
    unfolding r by auto
  have "coeffs A 0 0 = 1" "coeffs A 0 1 = 0" "coeffs A 1 0 = 0" "coeffs A 1 1 = 1"
    "data_l (example_data 1 3) ! 0 = Some 1" "data_u (example_data 1 3) ! 0 = Some kUpperLimit"
    "data_l (example_data 1 3) ! 1 = Some (c_sub 3 kEpsilon)"
    "data_u (example_data 1 3) ! 1 = Some (c_add 3 kEpsilon)"
    using i[of 0 0] i[of 0 1] e[of 0 0] e[of 0 1] by (simp_all add: r)
  with A example_build[of OSQP_SOLVED "\<lambda>i. 0" 1 3] w show ?thesis
    by auto
qed

text \<open>
  C5 as stated fails: nothing in \<^verbatim>\<open>Solve\<close> makes the two splits agree. With an inequality
  boundary of two rows for an inequality matrix of one row, \<open>A\<close> has two rows, the second
  being the row of the equality matrix, while the bounds are built for three rows and the
  second pair of bounds is the inequality pair for the boundary value 4.
\<close>

theorem bounds_split_differs_from_matrix_split:
  "(case (constraint_matrix_A long_boundary_solver,
          build_problem (example_externals OSQP_SOLVED (\<lambda>i. 0)) long_boundary_solver) of
      (Inr A, Inr (Some d)) \<Rightarrow>
        rows (inequality_constraint_matrix long_boundary_solver) = 1
        \<and> rows A = 2 \<and> coeffs A 1 0 = 0 \<and> coeffs A 1 1 = 1
        \<and> data_m d = 3
        \<and> data_l d ! 1 = Some 4 \<and> data_u d ! 1 = Some kUpperLimit
    | _ \<Rightarrow> False)"
  by (simp add: build_problem_def long_boundary_solver_def example_defs numeral_3_eq_3)

text \<open>
  C6. For every input whose cost (kernel) matrix has zero rows, \<^verbatim>\<open>Solve\<close> returns false without
  invoking the solver: the solver object and the world, with its record of the calls to
  OSQP and its workspaces, are as before the call, so there was no setup and no solve call.
\<close>

theorem Solve_empty_kernel:
  assumes "rows (kernel_matrix s) = 0"
  shows "Solve ext (s, w) = Inr (False, s, w)"
  using assms by (simp add: Solve_early_return build_problem_empty_kernel)

theorem Solve_empty_kernel_witness:
  "rows (kernel_matrix empty_solver) = 0
   \<and> Solve (example_externals OSQP_SOLVED (\<lambda>i. 1)) (empty_solver, empty_world)
      = Inr (False, empty_solver, empty_world)"
  using Solve_empty_kernel[of empty_solver "example_externals OSQP_SOLVED (\<lambda>i. 1)" empty_world]
  by (simp add: empty_solver_def mat_def)




text \<open>
  C8, as amended. For every assembled problem whose equality targets are doubles, and every
  row \<open>i\<close>: \<open>l[i] \<le> u[i]\<close> holds exactly when row \<open>i\<close> is an equality row, or an inequality
  row whose boundary value is at most the sentinel \<open>10\<^sup>9\<close>.
\<close>

theorem bounds_ordered_iff:
  assumes "build_problem ext s = Inr (Some d)"
    and "i < data_m d"
    and "\<forall>idx < rows (equality_constraint_boundary s).
           is_double (coeffs (equality_constraint_boundary s) idx 0)"
  shows "bounds_ordered d i \<longleftrightarrow>
           (i < rows (inequality_constraint_boundary s) \<longrightarrow>
              coeffs (inequality_constraint_boundary s) i 0 \<le> 10 ^ 9)"
proof -
  have m: "data_m d = rows (inequality_constraint_boundary s) + rows (equality_constraint_boundary s)"
    using assms(1) by (rule build_problem_Some)
  with assms(2) have i: "i < rows (inequality_constraint_boundary s) + rows (equality_constraint_boundary s)"
    by simp
  note b = problem_bounds[OF assms(1) i]
  show ?thesis
  proof (cases "i < rows (inequality_constraint_boundary s)")
    case True
    then show ?thesis using b by (simp add: bounds_ordered_def kUpperLimit_value)
  next
    case False
    define t where "t = coeffs (equality_constraint_boundary s) (i - rows (inequality_constraint_boundary s)) 0"
    have "i - rows (inequality_constraint_boundary s) < rows (equality_constraint_boundary s)"
      using False i by simp
    with assms(3) have "is_double t" by (simp add: t_def)
    from equality_bounds_enclose[OF this] have "c_sub t kEpsilon \<le> c_add t kEpsilon" by simp
    then show ?thesis using b False by (simp add: bounds_ordered_def t_def)
  qed
qed

theorem bounds_ordered_iff_witness:
  "build_problem (example_externals OSQP_SOLVED (\<lambda>i. 0)) (example_solver 1 3)
     = Inr (Some (example_data 1 3))
   \<and> (1::nat) < data_m (example_data 1 3)
   \<and> rows (equality_constraint_boundary (example_solver 1 3)) = 1
   \<and> is_double (coeffs (equality_constraint_boundary (example_solver 1 3)) 0 0)
   \<and> bounds_ordered (example_data 1 3) 0 \<and> bounds_ordered (example_data 1 3) 1"
proof -
  have r: "rows (equality_constraint_boundary (example_solver 1 3)) = 1"
    "coeffs (equality_constraint_boundary (example_solver 1 3)) 0 0 = 3"
    "rows (inequality_constraint_boundary (example_solver 1 3)) = 1"
    "coeffs (inequality_constraint_boundary (example_solver 1 3)) 0 0 = 1"
    by (simp_all add: example_solver_def OsqpSpline1dSolver_def example_base_def mat_def)
  have d: "is_double 3"
    by (simp add: fp_eval del: of_int_floor_cancel)
  have m: "(0::nat) < data_m (example_data 1 3)" "(1::nat) < data_m (example_data 1 3)"
    by (simp_all add: example_data_def)
  have a: "\<forall>idx < rows (equality_constraint_boundary (example_solver 1 3)).
           is_double (coeffs (equality_constraint_boundary (example_solver 1 3)) idx 0)"
    using d by (simp add: r)
  show ?thesis
    using bounds_ordered_iff[OF example_build[of OSQP_SOLVED "\<lambda>i. 0" 1 3] m(1) a]
      bounds_ordered_iff[OF example_build[of OSQP_SOLVED "\<lambda>i. 0" 1 3] m(2) a]
      example_build[of OSQP_SOLVED "\<lambda>i. 0" 1 3] m d
    by (simp add: r)
qed

text \<open>
  C8 as stated fails: with the inequality boundary \<open>2 \<cdot> 10\<^sup>9\<close> the first row of the example
  problem has \<open>l = 2 \<cdot> 10\<^sup>9\<close> above \<open>u = 10\<^sup>9\<close>.
\<close>

theorem inequality_bounds_inverted:
  "(case build_problem (example_externals OSQP_SOLVED (\<lambda>i. 0)) (example_solver (2 * 10 ^ 9) 3) of
      Inr (Some d) \<Rightarrow>
        data_l d ! 0 = Some (2 * 10 ^ 9) \<and> data_u d ! 0 = Some (10 ^ 9)
        \<and> \<not> bounds_ordered d 0
    | _ \<Rightarrow> False)"
  unfolding example_build
  by (simp add: example_data_def bounds_ordered_def kUpperLimit_value)

text \<open>
  C9. For every successful solve (the problem was built, \<^verbatim>\<open>osqp_setup\<close> returned a workspace
  \<open>ws\<close>, and OSQP ends with status solved), the \<open>n\<close> entries of the primal solution are
  written into an \<open>n \<times> 1\<close> matrix, \<open>n\<close> the number of rows of the kernel matrix, which is
  passed to \<^verbatim>\<open>SetSplineSegs\<close> together with the spline's order; \<^verbatim>\<open>Solve\<close> returns exactly what
  that operation returns, and the spline is the one it leaves.
\<close>

theorem Solve_applies_solution:
  assumes "build_problem ext s = Inr (Some d)"
    and "usable (data_' s)" "usable (settings_' s)"
    and "setup_result ext d (pointee (settings_' s)) = Some ws"
    and "status_val (solve_result ext ws) = OSQP_SOLVED"
  shows "\<exists>s' w'.
           Solve ext (s, w) =
             Inr (fst (SetSplineSegs ext (spline_' s)
                         \<lparr>rows = rows (kernel_matrix s), cols = 1,
                          coeffs = (\<lambda>i j. if i < rows (kernel_matrix s) \<and> j = 0
                                           then solution_x (solve_result ext ws) i else 0)\<rparr>
                         (spline_order ext (spline_' s))),
                  s', w')
           \<and> spline_' s' =
               snd (SetSplineSegs ext (spline_' s)
                      \<lparr>rows = rows (kernel_matrix s), cols = 1,
                       coeffs = (\<lambda>i j. if i < rows (kernel_matrix s) \<and> j = 0
                                        then solution_x (solve_result ext ws) i else 0)\<rparr>
                      (spline_order ext (spline_' s)))"
proof -
  have n: "data_n d = rows (kernel_matrix s)"
    using assms(1) by (rule build_problem_Some)
  show ?thesis
    unfolding Solve_reaches_solver[OF assms(1-4)] n Let_def by simp
qed

theorem Solve_applies_solution_witness:
  "build_problem (example_externals OSQP_SOLVED (\<lambda>i. if i = 0 then 1 else 3)) (example_solver 1 3)
     = Inr (Some (example_data 1 3))
   \<and> usable (data_' (example_solver 1 3)) \<and> usable (settings_' (example_solver 1 3))
   \<and> setup_result (example_externals OSQP_SOLVED (\<lambda>i. if i = 0 then 1 else 3)) (example_data 1 3)
        (pointee (settings_' (example_solver 1 3)))
       = Some \<lparr>solution_x = (\<lambda>i. 0), status_val = OSQP_UNSOLVED\<rparr>
   \<and> status_val (solve_result (example_externals OSQP_SOLVED (\<lambda>i. if i = 0 then 1 else 3))
        \<lparr>solution_x = (\<lambda>i. 0), status_val = OSQP_UNSOLVED\<rparr>) = OSQP_SOLVED
   \<and> (\<exists>s' w'. Solve (example_externals OSQP_SOLVED (\<lambda>i. if i = 0 then 1 else 3))
                  (example_solver 1 3, empty_world) = Inr (True, s', w')
              \<and> spline_' s' = [1, 3])"
proof -
  let ?E = "example_externals OSQP_SOLVED (\<lambda>i. if i = 0 then 1 else 3)"
  have st: "status_val (solve_result ?E \<lparr>solution_x = (\<lambda>i. 0), status_val = OSQP_UNSOLVED\<rparr>)
      = OSQP_SOLVED"
    by (simp add: example_externals_def)
  have k: "rows (kernel_matrix (example_solver 1 3)) = 2" "spline_' (example_solver 1 3) = []"
    by (simp_all add: example_solver_def OsqpSpline1dSolver_def example_base_def mat_def)
  have ev: "SetSplineSegs ?E [] \<lparr>rows = 2, cols = 1,
         coeffs = (\<lambda>i j. if i < 2 \<and> j = 0
                     then solution_x (solve_result ?E \<lparr>solution_x = (\<lambda>i. 0), status_val = OSQP_UNSOLVED\<rparr>) i
                     else 0)\<rparr> (spline_order ?E []) = (True, [1, 3])"
    by (simp add: example_externals_def upt_rec)
  show ?thesis
    using Solve_applies_solution[OF example_build[of _ _ 1 3] example_pointers[of 1 3]
        example_setup st, where w = empty_world]
      example_build[of OSQP_SOLVED "\<lambda>i. if i = 0 then 1 else 3" 1 3] example_pointers[of 1 3]
      example_setup[of OSQP_SOLVED "\<lambda>i. if i = 0 then 1 else 3"] st
    unfolding k ev by simp
qed

text \<open>
  C10. On either early failure path of \<^verbatim>\<open>Solve\<close> (the cost matrix has zero rows, or the
  assembled constraint matrix has zero rows), the call returns false and leaves the
  observable state as it was: the spline is not set, the retained counts
  \<^verbatim>\<open>last_num_param_\<close> and \<^verbatim>\<open>last_num_constraint_\<close> keep their values, and the world is
  unchanged.
\<close>

theorem Solve_early_return_frame:
  assumes "rows (kernel_matrix s) = 0 \<or> (\<exists>A. constraint_matrix_A s = Inr A \<and> rows A = 0)"
  shows "\<exists>s'. Solve ext (s, w) = Inr (False, s', w) \<and> spline_' s' = spline_' s
           \<and> last_num_param_' s' = last_num_param_' s
           \<and> last_num_constraint_' s' = last_num_constraint_' s"
proof -
  from assms have "build_problem ext s = Inr None"
    by (auto simp: build_problem_empty_kernel build_problem_empty_A)
  then have "Solve ext (s, w) = Inr (False, s, w)" by (rule Solve_early_return)
  then show ?thesis by simp
qed

theorem Solve_early_return_frame_witness:
  "rows (kernel_matrix empty_solver) = 0
   \<and> constraint_matrix_A unconstrained_solver = Inr (mat 0 0 [])
   \<and> rows (mat 0 0 []) = 0
   \<and> (\<exists>s'. Solve (example_externals OSQP_SOLVED (\<lambda>i. 1)) (empty_solver, empty_world)
              = Inr (False, s', empty_world)
           \<and> spline_' s' = [] \<and> last_num_param_' s' = 0 \<and> last_num_constraint_' s' = 0)
   \<and> (\<exists>s'. Solve (example_externals OSQP_SOLVED (\<lambda>i. 1)) (unconstrained_solver, empty_world)
              = Inr (False, s', empty_world)
           \<and> spline_' s' = [] \<and> last_num_param_' s' = 0 \<and> last_num_constraint_' s' = 0)"
proof -
  have k: "rows (kernel_matrix empty_solver) = 0"
    by (simp add: empty_solver_def mat_def)
  have a: "constraint_matrix_A unconstrained_solver = Inr (mat 0 0 [])" "rows (mat 0 0 []) = 0"
    by (simp_all add: unconstrained_solver_def constraint_matrix_A_def comma_initializer_def mat_def)
  from a have a': "rows (kernel_matrix unconstrained_solver) = 0
      \<or> (\<exists>A. constraint_matrix_A unconstrained_solver = Inr A \<and> rows A = 0)" by blast
  have f: "spline_' empty_solver = []" "last_num_param_' empty_solver = 0"
    "last_num_constraint_' empty_solver = 0" "spline_' unconstrained_solver = []"
    "last_num_param_' unconstrained_solver = 0" "last_num_constraint_' unconstrained_solver = 0"
    by (simp_all add: empty_solver_def unconstrained_solver_def example_solver_def
        OsqpSpline1dSolver_def example_base_def)
  show ?thesis
    using Solve_early_return_frame[of empty_solver "example_externals OSQP_SOLVED (\<lambda>i. 1)" empty_world]
      Solve_early_return_frame[OF a', of "example_externals OSQP_SOLVED (\<lambda>i. 1)" empty_world]
      k a f
    by simp
qed

end
